theory Spec2Isabelle
  imports Complex_Main "HOL-Library.Sublist"
begin

section \<open>The notebooks as programs over a solver session\<close>

text \<open>
  The two notebooks of \<^verbatim>\<open>lesson2.ipynb\<close> are straight-line Python scripts that drive
  the MAPDL solver through its client library. The client library and the solver are not
  part of the repository, so they are a parameter of the model: a record of functions
  over an opaque remote state \<open>'s\<close>, each of which may raise.

  Python numbers (\<open>int\<close> and \<open>float\<close>) that are passed to the solver are modelled by the
  real number they denote; floating-point rounding is not modelled.
\<close>

subsection \<open>Values, commands and the client library\<close>

datatype pyval = Num real | Str string | Bool bool

text \<open>A client call: method name, positional arguments, keyword arguments.\<close>

datatype cmd = Cmd string "pyval list" "(string \<times> pyval) list"

fun cmd_name :: "cmd \<Rightarrow> string" where
  "cmd_name (Cmd f args kw) = f"

datatype event = Launch | Sent cmd

datatype exn = LibraryError string | NameError string | ValueError string | IndexError string

datatype reply = NoValue | Floats "real list" | Ints "int list"

datatype outcome = Returned reply | Raised exn

record 's client =
  launch :: "exn + 's"
  command :: "cmd \<Rightarrow> 's \<Rightarrow> (exn + unit) \<times> 's"
  stress_query :: "'s \<Rightarrow> (exn + real list) \<times> 's"
  nnum_query :: "'s \<Rightarrow> (exn + int list) \<times> 's"

subsection \<open>The module namespace and the interaction trace\<close>

text \<open>
  The notebook's module-level variables that the code reads and writes, together with
  \<open>trace\<close>: the record of every call made to the client library and how it ended.
  An unbound variable is \<open>None\<close>.
\<close>

record 's state =
  trace :: "(event \<times> outcome) list"
  mapdl :: "'s option"
  rad1 :: "real option"
  num_dof :: "int list"
  max_stress :: "real list"

type_synonym ('s, 'a) prog = "'s state \<Rightarrow> (exn + 'a) \<times> 's state"

definition ret :: "'a \<Rightarrow> ('s, 'a) prog" where
  "ret x = (\<lambda>s. (Inr x, s))"

definition raise :: "exn \<Rightarrow> ('s, 'a) prog" where
  "raise e = (\<lambda>s. (Inl e, s))"

text \<open>Sequencing: an exception of the first part skips the rest (there is no handler).\<close>

definition and_then :: "('s, 'a) prog \<Rightarrow> ('a \<Rightarrow> ('s, 'b) prog) \<Rightarrow> ('s, 'b) prog" where
  "and_then p f = (\<lambda>s. case p s of (Inl e, s') \<Rightarrow> (Inl e, s') | (Inr a, s') \<Rightarrow> f a s')"

definition modify :: "('s state \<Rightarrow> 's state) \<Rightarrow> ('s, unit) prog" where
  "modify g = (\<lambda>s. (Inr (), g s))"

text \<open>
  A call through the session object \<open>mapdl\<close>: looking up the unbound name raises
  \<open>NameError\<close> before anything is sent; otherwise the call is recorded with its outcome.
\<close>

definition remote_call :: "cmd \<Rightarrow> ('s \<Rightarrow> (exn + 'a) \<times> 's) \<Rightarrow> ('a \<Rightarrow> reply) \<Rightarrow> ('s, 'a) prog" where
  "remote_call c f rep = (\<lambda>s.
     case mapdl s of
       None \<Rightarrow> (Inl (NameError ''mapdl''), s)
     | Some r \<Rightarrow>
         (case f r of
            (Inl e, r') \<Rightarrow> (Inl e, s\<lparr>trace := trace s @ [(Sent c, Raised e)], mapdl := Some r'\<rparr>)
          | (Inr a, r') \<Rightarrow> (Inr a, s\<lparr>trace := trace s @ [(Sent c, Returned (rep a))], mapdl := Some r'\<rparr>)))"

definition call :: "'s client \<Rightarrow> cmd \<Rightarrow> ('s, unit) prog" where
  "call cl c = remote_call c (command cl c) (\<lambda>_. NoValue)"

definition nodal_eqv_stress :: "'s client \<Rightarrow> ('s, real list) prog" where
  "nodal_eqv_stress cl = remote_call (Cmd ''post_processing.nodal_eqv_stress'' [] []) (stress_query cl) Floats"

definition nnum_all :: "'s client \<Rightarrow> ('s, int list) prog" where
  "nnum_all cl = remote_call (Cmd ''mesh.nnum_all'' [] []) (nnum_query cl) Ints"

text \<open>\<^verbatim>\<open>mapdl = launch_mapdl()\<close>\<close>

definition launch_mapdl :: "'s client \<Rightarrow> ('s, unit) prog" where
  "launch_mapdl cl = (\<lambda>s.
     case launch cl of
       Inl e \<Rightarrow> (Inl e, s\<lparr>trace := trace s @ [(Launch, Raised e)]\<rparr>)
     | Inr r \<Rightarrow> (Inr (), s\<lparr>trace := trace s @ [(Launch, Returned NoValue)], mapdl := Some r\<rparr>))"

text \<open>A \<^verbatim>\<open>for\<close> loop over a finite sequence.\<close>

fun for_each :: "'a list \<Rightarrow> ('a \<Rightarrow> ('s, unit) prog) \<Rightarrow> ('s, unit) prog" where
  "for_each [] body = ret ()"
| "for_each (x # xs) body = and_then (body x) (\<lambda>_. for_each xs body)"

text \<open>Consecutive statements, each a client call whose return value is discarded.\<close>

definition run :: "'s client \<Rightarrow> cmd list \<Rightarrow> ('s, unit) prog" where
  "run cl cs = for_each cs (call cl)"

text \<open>Reading the module-level variable \<open>rad1\<close>.\<close>

definition read_rad1 :: "('s, real) prog" where
  "read_rad1 = (\<lambda>s. case rad1 s of None \<Rightarrow> (Inl (NameError ''rad1''), s) | Some v \<Rightarrow> (Inr v, s))"

text \<open>\<^verbatim>\<open>np.max\<close> of a one-dimensional array; an empty array has no maximum.\<close>

fun np_max :: "real list \<Rightarrow> ('s, real) prog" where
  "np_max [] = raise (ValueError ''zero-size array to reduction operation maximum which has no identity'')"
| "np_max (x # xs) = ret (fold max xs x)"

subsection \<open>The pipe notebook\<close>

text \<open>
  \<^verbatim>\<open>def pipe_plane_strain(e, nu, inn_radius, out_radius, press, AESIZE)\<close>.
  The line selection reads the module-level \<open>rad1\<close>, not the parameter \<open>inn_radius\<close>.
\<close>

definition pipe_plane_strain ::
  "'s client \<Rightarrow> real \<Rightarrow> real \<Rightarrow> real \<Rightarrow> real \<Rightarrow> real \<Rightarrow> real \<Rightarrow> ('s, int \<times> real) prog" where
  "pipe_plane_strain cl e nu inn_radius out_radius press AESIZE =
     and_then (run cl
       [Cmd ''clear'' [] [],
        Cmd ''prep7'' [] [],
        Cmd ''et'' [Num 1, Str ''PLANE182''] [(''kop3'', Num 2)],
        Cmd ''pcirc'' [Num inn_radius, Num out_radius] [(''theta1'', Num 0), (''theta2'', Num 90)],
        Cmd ''cm'' [Str ''PIPE_PROFILE'', Str ''AREA''] [],
        Cmd ''mp'' [Str ''EX'', Num 1, Num e] [],
        Cmd ''mp'' [Str ''PRXY'', Num 1, Num nu] [],
        Cmd ''aesize'' [Str ''ALL'', Num AESIZE] [],
        Cmd ''mshape'' [Num 0, Str ''2D''] [],
        Cmd ''mshkey'' [Num 1] [],
        Cmd ''cmsel'' [Str ''S'', Str ''PIPE_PROFILE''] [],
        Cmd ''amesh'' [Str ''ALL''] [],
        Cmd ''nsel'' [Str ''S'', Str ''LOC'', Str ''X'', Num 0] [],
        Cmd ''cm'' [Str ''X_FIXED'', Str ''NODES''] [],
        Cmd ''nsel'' [Str ''S'', Str ''LOC'', Str ''Y'', Num 0] [],
        Cmd ''cm'' [Str ''Y_FIXED'', Str ''NODES''] [],
        Cmd ''allsel'' [] []]) (\<lambda>_.
     and_then read_rad1 (\<lambda>rad1_value.
     and_then (run cl
       [Cmd ''lsel'' [Str ''S'', Str ''RADIUS''] [(''vmin'', Num rad1_value)],
        Cmd ''cm'' [Str ''PRESSURE_EDGE'', Str ''LINE''] [],
        Cmd ''allsel'' [] [],
        Cmd ''slashsolu'' [] [],
        Cmd ''antype'' [Str ''STATIC'', Str ''NEW''] [],
        Cmd ''d'' [Str ''X_FIXED'', Str ''UX'', Num 0] [],
        Cmd ''d'' [Str ''Y_FIXED'', Str ''UY'', Num 0] [],
        Cmd ''csys'' [Num 1] [],
        Cmd ''sfl'' [Str ''PRESSURE_EDGE'', Str ''PRES'', Num press] [],
        Cmd ''allsel'' [] [],
        Cmd ''solve'' [] [],
        Cmd ''finish'' [] [],
        Cmd ''post1'' [] [],
        Cmd ''set'' [Num 1, Num 1] []]) (\<lambda>_.
     and_then (nodal_eqv_stress cl) (\<lambda>stress.
     and_then (np_max stress) (\<lambda>max_eqv_stress.
     and_then (nnum_all cl) (\<lambda>all_dof.
     ret (2 * int (length all_dof), max_eqv_stress)))))))"

text \<open>
  \<^verbatim>\<open>np.logspace(start, stop, num)\<close> belongs to NumPy, not to the repository; it is
  modelled after its documentation (\<open>num\<close> samples \<open>10 ** y\<close> with \<open>y\<close> evenly spaced
  from \<open>start\<close> to \<open>stop\<close>, both included), over the reals.
\<close>

definition logspace :: "real \<Rightarrow> real \<Rightarrow> nat \<Rightarrow> real list" where
  "logspace start stop num =
     map (\<lambda>i. 10 powr (start + real i * ((stop - start) / real (num - 1)))) [0..<num]"

definition esizes :: "real list" where
  "esizes = logspace 1.4 0 20"

text \<open>
  The body of the sweep loop:
  \<^verbatim>\<open>dof, eqv_stress = pipe_plane_strain(e, nu, rad1, rad2, pressure, esize)\<close>, followed by
  the two \<^verbatim>\<open>append\<close>s. The call's third argument is the module-level \<open>rad1\<close>.
  (\<^verbatim>\<open>print\<close> only writes a line to the cell's output and is left out.)
\<close>

definition sweep_body :: "'s client \<Rightarrow> real \<Rightarrow> real \<Rightarrow> real \<Rightarrow> real \<Rightarrow> real \<Rightarrow> ('s, unit) prog" where
  "sweep_body cl e nu rad2 pressure esize =
     and_then read_rad1 (\<lambda>rad1_value.
     and_then (pipe_plane_strain cl e nu rad1_value rad2 pressure esize) (\<lambda>(dof, eqv_stress).
     and_then (modify (\<lambda>s. s\<lparr>num_dof := num_dof s @ [dof]\<rparr>)) (\<lambda>_.
     modify (\<lambda>s. s\<lparr>max_stress := max_stress s @ [eqv_stress]\<rparr>))))"

text \<open>
  The loop, over a list of element sizes, with the values that the cell gives to \<open>e\<close>,
  \<open>nu\<close>, \<open>rad2\<close> and \<open>pressure\<close> (\<open>2e5\<close>, \<open>0.3\<close>, \<open>200\<close>, \<open>100\<close>).
\<close>

definition sweep :: "'s client \<Rightarrow> real list \<Rightarrow> ('s, unit) prog" where
  "sweep cl sizes = for_each sizes (sweep_body cl 200000 0.3 200 100)"

text \<open>
  The cell of step 3: \<^verbatim>\<open>rad1 = 175\<close> (the one parameter that \<open>pipe_plane_strain\<close> reads
  from the module namespace), the empty result lists, the loop over \<open>esizes\<close>.
\<close>

definition convergence_study :: "'s client \<Rightarrow> ('s, unit) prog" where
  "convergence_study cl =
     and_then (modify (\<lambda>s. s\<lparr>rad1 := Some 175\<rparr>)) (\<lambda>_.
     and_then (modify (\<lambda>s. s\<lparr>num_dof := []\<rparr>)) (\<lambda>_.
     and_then (modify (\<lambda>s. s\<lparr>max_stress := []\<rparr>)) (\<lambda>_.
     sweep cl esizes)))"

text \<open>
  The plotting cell reads \<^verbatim>\<open>num_dof[0]\<close>, \<^verbatim>\<open>num_dof[-1]\<close> and \<^verbatim>\<open>max_stress[-1]\<close>,
  which raise on an empty list; matplotlib itself does not talk to the solver.
\<close>

definition plot_convergence :: "('s, unit) prog" where
  "plot_convergence = (\<lambda>s.
     if num_dof s = [] \<or> max_stress s = [] then (Inl (IndexError ''list index out of range''), s)
     else (Inr (), s))"

text \<open>
  The whole notebook, cell after cell; a cell that raises stops the run. In the first
  cell \<^verbatim>\<open>print(mapdl)\<close> asks the session object for its description, a call to the
  client library like any other.
\<close>

definition pipe_notebook :: "'s client \<Rightarrow> ('s, unit) prog" where
  "pipe_notebook cl =
     and_then (launch_mapdl cl) (\<lambda>_.
     and_then (call cl (Cmd ''__str__'' [] [])) (\<lambda>_.
     and_then (convergence_study cl) (\<lambda>_.
     and_then plot_convergence (\<lambda>_.
     and_then (run cl
       [Cmd ''allsel'' [Str ''ALL''] [],
        Cmd ''eplot'' [] [(''title'', Str ''Element Plot''), (''line_width'', Num 1),
                          (''show_bounds'', Bool True), (''cpos'', Str ''xy'')]]) (\<lambda>_.
     and_then (run cl
       [Cmd ''post1'' [] [],
        Cmd ''set'' [Num 1, Num 1] [],
        Cmd ''post_processing.plot_nodal_displacement'' [Str ''NORM'']
            [(''cpos'', Str ''xy''), (''cmap'', Str ''magma'')]]) (\<lambda>_.
     and_then (run cl
       [Cmd ''post_processing.plot_nodal_eqv_stress'' [] [(''cpos'', Str ''xy''), (''cmap'', Str ''magma'')]]) (\<lambda>_.
     call cl (Cmd ''exit'' [] []))))))))"

text \<open>The output recorded in the notebook for the sweep cell (one line per element size).\<close>

definition recorded_num_dof :: "int list" where
  "recorded_num_dof =
     [56, 96, 114, 132, 156, 248, 288, 430, 500, 708,
      980, 1312, 1746, 2530, 3264, 4508, 6460, 8550, 12282, 16432]"

definition recorded_max_stress :: "real list" where
  "recorded_max_stress =
     [702.42, 725.72, 725.63, 725.57, 725.52, 733.64, 733.62, 737.75, 737.74, 740.25,
      741.93, 743.13, 744.04, 745.32, 745.78, 746.50, 747.24, 747.60, 748.12, 748.40]"

subsection \<open>The plate notebook\<close>

text \<open>
  The parameters of step 1 (\<open>LENGTH\<close>, \<open>WIDTH\<close>, \<open>DEPTH\<close>, \<open>RADIUS\<close>, \<open>NUM\<close>, \<open>E\<close>, \<open>NU\<close>,
  \<open>PRESSURE\<close>) are arguments of the model; \<open>NUM\<close> is a Python \<open>int\<close>.
  \<^verbatim>\<open>range(1, NUM+1)\<close> is the list \<open>[1..NUM]\<close>, empty when \<open>NUM < 1\<close>.
\<close>

definition plate_geometry :: "'s client \<Rightarrow> real \<Rightarrow> real \<Rightarrow> real \<Rightarrow> real \<Rightarrow> int \<Rightarrow> ('s, unit) prog" where
  "plate_geometry cl LENGTH WIDTH DEPTH RADIUS NUM =
     and_then (launch_mapdl cl) (\<lambda>_.
     and_then (run cl
       [Cmd ''clear'' [] [],
        Cmd ''prep7'' [] [],
        Cmd ''block'' [Num 0, Num LENGTH, Num 0, Num WIDTH, Num 0, Num DEPTH] []]) (\<lambda>_.
     and_then (for_each [1..NUM] (\<lambda>i.
        call cl (Cmd ''cyl4'' [Num (of_int i * LENGTH / of_int (NUM + 1)), Num (WIDTH / 2), Num RADIUS,
                              Str '''', Str '''', Str '''', Num (2 * DEPTH)] []))) (\<lambda>_.
     run cl
       [Cmd ''vsbv'' [Num 1, Str ''all''] [],
        Cmd ''vplot'' [Str ''all''] []])))"

definition plate_notebook ::
  "'s client \<Rightarrow> real \<Rightarrow> real \<Rightarrow> real \<Rightarrow> real \<Rightarrow> int \<Rightarrow> real \<Rightarrow> real \<Rightarrow> real \<Rightarrow> ('s, unit) prog" where
  "plate_notebook cl LENGTH WIDTH DEPTH RADIUS NUM E NU PRESSURE =
     and_then (plate_geometry cl LENGTH WIDTH DEPTH RADIUS NUM) (\<lambda>_.
     and_then (run cl
       [Cmd ''lesize'' [Str ''ALL'', Num 0.15] [(''layer1'', Num 1)],
        Cmd ''mp'' [Str ''ex'', Num 1, Num E] [],
        Cmd ''mp'' [Str ''nuxy'', Num 1, Num NU] [],
        Cmd ''et'' [Num 1, Str ''SOLID186''] [],
        Cmd ''mshape'' [Num 1, Str ''3D''] [],
        Cmd ''mshkey'' [Num 0] [],
        Cmd ''vmesh'' [Str ''all''] [],
        Cmd ''eplot'' [] []]) (\<lambda>_.
     and_then (run cl
       [Cmd ''nsel'' [Str ''s'', Str ''loc'', Str ''x'', Num 0] [],
        Cmd ''d'' [Str ''all'', Str ''all'', Num 0] [],
        Cmd ''nsel'' [Str ''s'', Str ''loc'', Str ''x'', Num LENGTH] [],
        Cmd ''sf'' [Str ''all'', Str ''pres'', Num PRESSURE] [],
        Cmd ''allsel'' [] [],
        Cmd ''finish'' [] []]) (\<lambda>_.
     and_then (run cl
       [Cmd ''slashsolu'' [] [],
        Cmd ''solve'' [] [],
        Cmd ''finish'' [] []]) (\<lambda>_.
     and_then (run cl
       [Cmd ''result'' [] [],
        Cmd ''result.plot_principal_nodal_stress'' [Num 0, Str ''seqv'']
            [(''background'', Str ''w''), (''show_edges'', Bool True),
             (''text_color'', Str ''k''), (''add_text'', Bool True)]]) (\<lambda>_.
     call cl (Cmd ''exit'' [] []))))))"

subsection \<open>The commands of one \<open>pipe_plane_strain\<close> call\<close>

text \<open>
  The calls that the body of \<open>pipe_plane_strain\<close> makes, in program order, as a list:
  those before the read of \<open>rad1\<close>, those after it, and the two result queries.
\<close>

definition pipe_setup_commands :: "real \<Rightarrow> real \<Rightarrow> real \<Rightarrow> real \<Rightarrow> real \<Rightarrow> cmd list" where
  "pipe_setup_commands e nu inn_radius out_radius AESIZE =
       [Cmd ''clear'' [] [],
        Cmd ''prep7'' [] [],
        Cmd ''et'' [Num 1, Str ''PLANE182''] [(''kop3'', Num 2)],
        Cmd ''pcirc'' [Num inn_radius, Num out_radius] [(''theta1'', Num 0), (''theta2'', Num 90)],
        Cmd ''cm'' [Str ''PIPE_PROFILE'', Str ''AREA''] [],
        Cmd ''mp'' [Str ''EX'', Num 1, Num e] [],
        Cmd ''mp'' [Str ''PRXY'', Num 1, Num nu] [],
        Cmd ''aesize'' [Str ''ALL'', Num AESIZE] [],
        Cmd ''mshape'' [Num 0, Str ''2D''] [],
        Cmd ''mshkey'' [Num 1] [],
        Cmd ''cmsel'' [Str ''S'', Str ''PIPE_PROFILE''] [],
        Cmd ''amesh'' [Str ''ALL''] [],
        Cmd ''nsel'' [Str ''S'', Str ''LOC'', Str ''X'', Num 0] [],
        Cmd ''cm'' [Str ''X_FIXED'', Str ''NODES''] [],
        Cmd ''nsel'' [Str ''S'', Str ''LOC'', Str ''Y'', Num 0] [],
        Cmd ''cm'' [Str ''Y_FIXED'', Str ''NODES''] [],
        Cmd ''allsel'' [] []]"

definition pipe_solve_commands :: "real \<Rightarrow> real \<Rightarrow> cmd list" where
  "pipe_solve_commands rad1_value press =
       [Cmd ''lsel'' [Str ''S'', Str ''RADIUS''] [(''vmin'', Num rad1_value)],
        Cmd ''cm'' [Str ''PRESSURE_EDGE'', Str ''LINE''] [],
        Cmd ''allsel'' [] [],
        Cmd ''slashsolu'' [] [],
        Cmd ''antype'' [Str ''STATIC'', Str ''NEW''] [],
        Cmd ''d'' [Str ''X_FIXED'', Str ''UX'', Num 0] [],
        Cmd ''d'' [Str ''Y_FIXED'', Str ''UY'', Num 0] [],
        Cmd ''csys'' [Num 1] [],
        Cmd ''sfl'' [Str ''PRESSURE_EDGE'', Str ''PRES'', Num press] [],
        Cmd ''allsel'' [] [],
        Cmd ''solve'' [] [],
        Cmd ''finish'' [] [],
        Cmd ''post1'' [] [],
        Cmd ''set'' [Num 1, Num 1] []]"

definition pipe_commands :: "real \<Rightarrow> real \<Rightarrow> real \<Rightarrow> real \<Rightarrow> real \<Rightarrow> real \<Rightarrow> real \<Rightarrow> cmd list" where
  "pipe_commands rad1_value e nu inn_radius out_radius press AESIZE =
     pipe_setup_commands e nu inn_radius out_radius AESIZE @
     pipe_solve_commands rad1_value press @
     [Cmd ''post_processing.nodal_eqv_stress'' [] [], Cmd ''mesh.nnum_all'' [] []]"

subsection \<open>What a program sends\<close>

text \<open>
  \<open>clean\<close>: every recorded call returned. \<open>issues g g' p es\<close>: started with \<open>rad1\<close> bound
  as \<open>g\<close>, the program \<open>p\<close>, when it returns, has extended the trace by the events \<open>es\<close>,
  in this order, all of which returned, and leaves \<open>rad1\<close> bound as \<open>g'\<close>; when it raises,
  it has extended the trace by a prefix of \<open>es\<close> in which only the last call can have
  raised, and then with the exception that \<open>p\<close> ends with.
\<close>

definition clean :: "(event \<times> outcome) list \<Rightarrow> bool" where
  "clean es = list_all (\<lambda>x. case snd x of Returned _ \<Rightarrow> True | Raised _ \<Rightarrow> False) es"

definition issues :: "real option \<Rightarrow> real option \<Rightarrow> ('s, 'a) prog \<Rightarrow> event list \<Rightarrow> bool" where
  "issues g g' p es \<longleftrightarrow>
     (\<forall>s. rad1 s = g \<longrightarrow>
        (\<exists>new. trace (snd (p s)) = trace s @ new \<and>
           (case fst (p s) of
              Inr a \<Rightarrow> rad1 (snd (p s)) = g' \<and> clean new \<and> map fst new = es
            | Inl e \<Rightarrow> prefix (map fst new) es \<and> clean (butlast new) \<and>
                       (clean new \<or> new \<noteq> [] \<and> snd (last new) = Raised e))))"

text \<open>\<open>keeps_lists p\<close>: the program leaves both result lists as they are.\<close>

definition keeps_lists :: "('s, 'a) prog \<Rightarrow> bool" where
  "keeps_lists p \<longleftrightarrow> (\<forall>s. num_dof (snd (p s)) = num_dof s \<and> max_stress (snd (p s)) = max_stress s)"

text \<open>
  A client none of whose calls raises and whose stress array is never empty; a state in
  which the session and \<open>rad1\<close> are bound; a program that returns from every such state,
  in such a state.
\<close>

definition dependable :: "'s client \<Rightarrow> bool" where
  "dependable cl \<longleftrightarrow>
     (\<exists>r. launch cl = Inr r) \<and>
     (\<forall>c r. \<exists>r'. command cl c r = (Inr (), r')) \<and>
     (\<forall>r. \<exists>xs r'. stress_query cl r = (Inr xs, r') \<and> xs \<noteq> []) \<and>
     (\<forall>r. \<exists>ns r'. nnum_query cl r = (Inr ns, r'))"

definition ready :: "'s state \<Rightarrow> bool" where
  "ready s \<longleftrightarrow> mapdl s \<noteq> None \<and> rad1 s \<noteq> None"

definition completes :: "('s, 'a) prog \<Rightarrow> bool" where
  "completes p \<longleftrightarrow> (\<forall>s. ready s \<longrightarrow> (\<exists>a. fst (p s) = Inr a) \<and> ready (snd (p s)))"

text \<open>
  \<open>issued p s\<close>: the events that \<open>p\<close> adds to the trace when it runs from \<open>s\<close>;
  \<open>returns p s\<close>: that run ends without an exception.
\<close>

definition issued :: "('s, 'a) prog \<Rightarrow> 's state \<Rightarrow> event list" where
  "issued p s = map fst (drop (length (trace s)) (trace (snd (p s))))"

definition returns :: "('s, 'a) prog \<Rightarrow> 's state \<Rightarrow> bool" where
  "returns p s \<longleftrightarrow> (\<exists>a. fst (p s) = Inr a)"

fun event_name :: "event \<Rightarrow> string" where
  "event_name Launch = ''launch_mapdl''"
| "event_name (Sent c) = cmd_name c"

text \<open>The method names of one \<open>pipe_plane_strain\<close> call, in the order of the program text.\<close>

definition pipe_command_names :: "string list" where
  "pipe_command_names =
     [''clear'', ''prep7'', ''et'', ''pcirc'', ''cm'', ''mp'', ''mp'', ''aesize'', ''mshape'',
      ''mshkey'', ''cmsel'', ''amesh'', ''nsel'', ''cm'', ''nsel'', ''cm'', ''allsel'', ''lsel'',
      ''cm'', ''allsel'', ''slashsolu'', ''antype'', ''d'', ''d'', ''csys'', ''sfl'', ''allsel'',
      ''solve'', ''finish'', ''post1'', ''set'',
      ''post_processing.nodal_eqv_stress'', ''mesh.nnum_all'']"

text \<open>
  \<open>propagates p\<close>: whatever state \<open>p\<close> starts in, a call that raised is the last call of
  the run, and \<open>p\<close> ends with that very exception.
\<close>

definition propagates :: "('s, 'a) prog \<Rightarrow> bool" where
  "propagates p \<longleftrightarrow>
     (\<forall>s. \<exists>new. trace (snd (p s)) = trace s @ new \<and>
        (\<forall>i x. i < length new \<and> snd (new ! i) = Raised x \<longrightarrow>
           Suc i = length new \<and> fst (p s) = Inl x))"

subsection \<open>Concrete runs\<close>

text \<open>
  A notebook starts in a fresh kernel: nothing is bound and nothing has been sent.
  In \<open>session_state\<close> a session is open and \<open>rad1\<close> is bound as in the notebook.
  Two small clients over a call counter serve to run the model on concrete inputs: one
  never raises, the other raises at every \<open>solve\<close>.
\<close>

definition fresh_kernel :: "'s state" where
  "fresh_kernel = \<lparr>trace = [], mapdl = None, rad1 = None, num_dof = [], max_stress = []\<rparr>"

text \<open>
  \<open>launch_first_exit_last p\<close>: in the run of \<open>p\<close> in a fresh kernel the first event is the
  launch and every later event is a command sent through the session; \<open>exit\<close> is sent at
  most once and only as the last command; and a run that returns has sent \<open>exit\<close> as its
  last command.
\<close>

definition launch_first_exit_last :: "('s, unit) prog \<Rightarrow> bool" where
  "launch_first_exit_last p \<longleftrightarrow>
     (\<exists>cs. issued p fresh_kernel = Launch # map Sent cs \<and>
        (\<forall>i<length cs. cmd_name (cs ! i) = ''exit'' \<longrightarrow> Suc i = length cs) \<and>
        (returns p fresh_kernel \<longrightarrow> cs \<noteq> [] \<and> last cs = Cmd ''exit'' [] []))"

definition session_state :: "nat state" where
  "session_state = \<lparr>trace = [], mapdl = Some 0, rad1 = Some 175, num_dof = [], max_stress = []\<rparr>"

definition steady_client :: "nat client" where
  "steady_client =
     \<lparr>launch = Inr 0,
      command = (\<lambda>c r. (Inr (), Suc r)),
      stress_query = (\<lambda>r. (Inr [700, 702.42, 650], Suc r)),
      nnum_query = (\<lambda>r. (Inr [1, 2, 3, 4], Suc r))\<rparr>"

definition failing_client :: "nat client" where
  "failing_client =
     \<lparr>launch = Inr 0,
      command = (\<lambda>c r. if cmd_name c = ''solve'' then (Inl (LibraryError ''solve''), r) else (Inr (), Suc r)),
      stress_query = (\<lambda>r. (Inr [700, 702.42, 650], Suc r)),
      nnum_query = (\<lambda>r. (Inr [1, 2, 3, 4], Suc r))\<rparr>"

section \<open>Auxiliary facts\<close>

subsection \<open>Sequencing\<close>

lemma and_then_Inl: "fst (p s) = Inl e \<Longrightarrow> fst (and_then p f s) = Inl e \<and> snd (and_then p f s) = snd (p s)"
  by (cases "p s") (simp add: and_then_def)

lemma and_then_Inr: "fst (p s) = Inr a \<Longrightarrow> and_then p f s = f a (snd (p s))"
  by (cases "p s") (simp add: and_then_def)

lemma and_then_returns:
  "fst (and_then p f s) = Inr b \<Longrightarrow> \<exists>a. fst (p s) = Inr a \<and> and_then p f s = f a (snd (p s))"
  by (cases "p s"; cases "fst (p s)") (auto simp: and_then_def)

lemma and_then_ret [simp]: "and_then (ret x) f = f x"
  by (simp add: and_then_def ret_def)

lemma and_then_assoc: "and_then (and_then p f) h = and_then p (\<lambda>a. and_then (f a) h)"
  by (auto simp: and_then_def fun_eq_iff split: prod.splits sum.splits)

lemma and_then_ret_right [simp]: "and_then p ret = p"
  by (auto simp: and_then_def ret_def fun_eq_iff split: prod.splits sum.splits)

lemma for_each_append:
  "for_each (xs @ ys) body = and_then (for_each xs body) (\<lambda>_. for_each ys body)"
  by (induction xs) (simp_all add: and_then_assoc)

lemma for_each_snoc: "for_each (xs @ [x]) body = and_then (for_each xs body) (\<lambda>_. body x)"
  by (simp add: for_each_append)

subsection \<open>Traces of composed programs\<close>

lemma clean_Nil [simp]: "clean []"
  by (simp add: clean_def)

lemma clean_append [simp]: "clean (xs @ ys) \<longleftrightarrow> clean xs \<and> clean ys"
  by (simp add: clean_def)

lemma clean_Cons [simp]: "clean (x # xs) \<longleftrightarrow> (\<exists>r. snd x = Returned r) \<and> clean xs"
  by (cases "snd x") (simp_all add: clean_def)

lemma clean_butlast: "clean xs \<Longrightarrow> clean (butlast xs)"
  by (induction xs) auto

lemma issues_ret: "issues g g (ret x) []"
  by (simp add: issues_def ret_def)

lemma issues_raise: "issues g g' (raise e) es"
  by (simp add: issues_def raise_def)

lemma issues_remote_call: "issues g g (remote_call c f rep) [Sent c]"
  by (auto simp: issues_def remote_call_def split: option.splits prod.splits sum.splits)

lemma issues_call: "issues g g (call cl c) [Sent c]"
  by (simp add: call_def issues_remote_call)

lemma issues_nodal_eqv_stress:
  "issues g g (nodal_eqv_stress cl) [Sent (Cmd ''post_processing.nodal_eqv_stress'' [] [])]"
  by (simp add: nodal_eqv_stress_def issues_remote_call)

lemma issues_nnum_all: "issues g g (nnum_all cl) [Sent (Cmd ''mesh.nnum_all'' [] [])]"
  by (simp add: nnum_all_def issues_remote_call)

lemma issues_launch_mapdl: "issues g g (launch_mapdl cl) [Launch]"
  by (auto simp: issues_def launch_mapdl_def split: sum.splits)

lemma issues_and_then:
  fixes p :: "('s, 'a) prog"
  assumes p: "issues g g' p cs" and f: "\<And>a. issues g' g'' (f a) ds"
  shows "issues g g'' (and_then p f) (cs @ ds)"
  unfolding issues_def
proof (intro allI impI)
  fix s :: "'s state"
  assume g: "rad1 s = g"
  from p g obtain new where new: "trace (snd (p s)) = trace s @ new"
    "case fst (p s) of
       Inr a \<Rightarrow> rad1 (snd (p s)) = g' \<and> clean new \<and> map fst new = cs
     | Inl e \<Rightarrow> prefix (map fst new) cs \<and> clean (butlast new) \<and>
         (clean new \<or> new \<noteq> [] \<and> snd (last new) = Raised e)"
    unfolding issues_def by blast
  show "\<exists>new. trace (snd (and_then p f s)) = trace s @ new \<and>
           (case fst (and_then p f s) of
              Inr a \<Rightarrow> rad1 (snd (and_then p f s)) = g'' \<and> clean new \<and> map fst new = cs @ ds
            | Inl e \<Rightarrow> prefix (map fst new) (cs @ ds) \<and> clean (butlast new) \<and>
                       (clean new \<or> new \<noteq> [] \<and> snd (last new) = Raised e))"
  proof (cases "fst (p s)")
    case (Inl e)
    with and_then_Inl [of p s e f] new show ?thesis by auto
  next
    case (Inr a)
    then have eq: "and_then p f s = f a (snd (p s))"
      by (rule and_then_Inr)
    from new Inr have c: "rad1 (snd (p s)) = g'" "clean new" "map fst new = cs" by simp_all
    from f [of a] c(1) obtain new' where new':
      "trace (snd (f a (snd (p s)))) = trace (snd (p s)) @ new'"
      "case fst (f a (snd (p s))) of
         Inr b \<Rightarrow> rad1 (snd (f a (snd (p s)))) = g'' \<and> clean new' \<and> map fst new' = ds
       | Inl e \<Rightarrow> prefix (map fst new') ds \<and> clean (butlast new') \<and>
           (clean new' \<or> new' \<noteq> [] \<and> snd (last new') = Raised e)"
      unfolding issues_def by blast
    show ?thesis
    proof (intro exI [of _ "new @ new'"] conjI)
      show "trace (snd (and_then p f s)) = trace s @ new @ new'"
        using eq new(1) new'(1) by simp
      show "case fst (and_then p f s) of
              Inr a \<Rightarrow> rad1 (snd (and_then p f s)) = g'' \<and> clean (new @ new') \<and> map fst (new @ new') = cs @ ds
            | Inl e \<Rightarrow> prefix (map fst (new @ new')) (cs @ ds) \<and> clean (butlast (new @ new')) \<and>
                       (clean (new @ new') \<or> new @ new' \<noteq> [] \<and> snd (last (new @ new')) = Raised e)"
        using new'(2) c unfolding eq
        by (cases "fst (f a (snd (p s)))") (auto simp: butlast_append clean_butlast)
    qed
  qed
qed

lemma issues_seq:
  "issues g g p cs \<Longrightarrow> (\<And>a. issues g g (f a) ds) \<Longrightarrow> issues g g (and_then p f) (cs @ ds)"
  by (rule issues_and_then)

lemma issues_for_each:
  assumes "\<And>x. issues g g (body x) (F x)"
  shows "issues g g (for_each xs body) (concat (map F xs))"
proof (induction xs)
  case Nil
  show ?case by (simp add: issues_ret)
next
  case (Cons x xs)
  from assms [of x] Cons show ?case
    by (simp add: issues_and_then)
qed

lemma issues_run: "issues g g (run cl cs) (map Sent cs)"
  using issues_for_each [of g "call cl" "\<lambda>c. [Sent c]" cs]
  by (simp add: run_def issues_call)

lemma issues_np_max: "issues g g (np_max xs) []"
  by (cases xs) (simp_all add: issues_ret issues_raise)

lemma issues_modify:
  "(\<And>s. rad1 s = g \<Longrightarrow> trace (h s) = trace s \<and> rad1 (h s) = g') \<Longrightarrow> issues g g' (modify h) []"
  by (simp add: issues_def modify_def)

lemma issues_read_rad1_then:
  assumes "\<And>w. g = Some w \<Longrightarrow> issues g g' (k w) es"
  shows "issues g g' (and_then read_rad1 k) es"
proof (cases g)
  case None
  then show ?thesis
    by (simp add: issues_def and_then_def read_rad1_def)
next
  case (Some w)
  have "and_then read_rad1 k s = k w s" if "rad1 s = g" for s
    using that Some by (simp add: and_then_def read_rad1_def)
  with assms [OF Some] show ?thesis
    unfolding issues_def by metis
qed

subsection \<open>The trace of \<open>pipe_plane_strain\<close>\<close>

lemma pipe_plane_strain_unfold:
  "pipe_plane_strain cl e nu inn_radius out_radius press AESIZE =
     and_then (run cl (pipe_setup_commands e nu inn_radius out_radius AESIZE)) (\<lambda>_.
     and_then read_rad1 (\<lambda>rad1_value.
     and_then (run cl (pipe_solve_commands rad1_value press)) (\<lambda>_.
     and_then (nodal_eqv_stress cl) (\<lambda>stress.
     and_then (np_max stress) (\<lambda>max_eqv_stress.
     and_then (nnum_all cl) (\<lambda>all_dof.
     ret (2 * int (length all_dof), max_eqv_stress)))))))"
  by (simp add: pipe_plane_strain_def pipe_setup_commands_def pipe_solve_commands_def)

lemma issues_pipe_plane_strain:
  assumes "\<And>w. g = Some w \<Longrightarrow> w = v"
  shows "issues g g (pipe_plane_strain cl e nu inn_radius out_radius press AESIZE)
           (map Sent (pipe_commands v e nu inn_radius out_radius press AESIZE))"
proof -
  have tail: "issues g g
     (and_then (run cl (pipe_solve_commands w press)) (\<lambda>_.
      and_then (nodal_eqv_stress cl) (\<lambda>stress.
      and_then (np_max stress) (\<lambda>max_eqv_stress.
      and_then (nnum_all cl) (\<lambda>all_dof.
      ret (2 * int (length all_dof), max_eqv_stress))))))
     (map Sent (pipe_solve_commands w press) @
        [Sent (Cmd ''post_processing.nodal_eqv_stress'' [] [])] @ [] @
        [Sent (Cmd ''mesh.nnum_all'' [] [])] @ [])" for w
    by (intro issues_seq issues_run issues_nodal_eqv_stress issues_np_max issues_nnum_all issues_ret)
  have "issues g g (pipe_plane_strain cl e nu inn_radius out_radius press AESIZE)
     (map Sent (pipe_setup_commands e nu inn_radius out_radius AESIZE) @
      (map Sent (pipe_solve_commands v press) @
        [Sent (Cmd ''post_processing.nodal_eqv_stress'' [] [])] @ [] @
        [Sent (Cmd ''mesh.nnum_all'' [] [])] @ []))"
    unfolding pipe_plane_strain_unfold
  proof (rule issues_and_then [OF issues_run], rule issues_read_rad1_then)
    fix w assume "g = Some w"
    then have "w = v" by (rule assms)
    then show "issues g g
     (and_then (run cl (pipe_solve_commands w press)) (\<lambda>_.
      and_then (nodal_eqv_stress cl) (\<lambda>stress.
      and_then (np_max stress) (\<lambda>max_eqv_stress.
      and_then (nnum_all cl) (\<lambda>all_dof.
      ret (2 * int (length all_dof), max_eqv_stress))))))
     (map Sent (pipe_solve_commands v press) @
        [Sent (Cmd ''post_processing.nodal_eqv_stress'' [] [])] @ [] @
        [Sent (Cmd ''mesh.nnum_all'' [] [])] @ [])"
      using tail [of w] by simp
  qed
  then show ?thesis
    by (simp add: pipe_commands_def)
qed

lemma clean_nth: "clean xs \<Longrightarrow> i < length xs \<Longrightarrow> snd (xs ! i) \<noteq> Raised e"
  by (auto simp: clean_def list_all_length split: outcome.splits)

lemma raised_is_last:
  assumes "clean (butlast new)" and "i < length new" and "snd (new ! i) = Raised e"
  shows "Suc i = length new"
proof (rule ccontr)
  assume "Suc i \<noteq> length new"
  with assms(2) have i: "i < length (butlast new)" by simp
  then have "butlast new ! i = new ! i" by (simp add: nth_butlast)
  with clean_nth [OF assms(1) i, of e] assms(3) show False by simp
qed

lemma issuesD:
  assumes "issues g g' p es" and "rad1 s = g"
  shows "\<exists>new. trace (snd (p s)) = trace s @ new \<and> prefix (map fst new) es \<and>
           (\<forall>a. fst (p s) = Inr a \<longrightarrow> map fst new = es \<and> clean new \<and> rad1 (snd (p s)) = g') \<and>
           (\<forall>i e. i < length new \<and> snd (new ! i) = Raised e \<longrightarrow> Suc i = length new \<and> fst (p s) = Inl e)"
proof -
  from assms obtain new where new: "trace (snd (p s)) = trace s @ new"
    "case fst (p s) of
       Inr a \<Rightarrow> rad1 (snd (p s)) = g' \<and> clean new \<and> map fst new = es
     | Inl e \<Rightarrow> prefix (map fst new) es \<and> clean (butlast new) \<and>
         (clean new \<or> new \<noteq> [] \<and> snd (last new) = Raised e)"
    unfolding issues_def by blast
  have "Suc i = length new \<and> fst (p s) = Inl e" if i: "i < length new" and r: "snd (new ! i) = Raised e" for i e
  proof (cases "fst (p s)")
    case (Inr a)
    with new(2) have "clean new" by simp
    from clean_nth [OF this i, of e] r show ?thesis by simp
  next
    case (Inl e')
    with new(2) have b: "clean (butlast new)" and l: "clean new \<or> new \<noteq> [] \<and> snd (last new) = Raised e'"
      by simp_all
    from raised_is_last [OF b i r] have last: "Suc i = length new" .
    from clean_nth [of new i e] i r have "\<not> clean new" by blast
    with l have "new \<noteq> []" "snd (last new) = Raised e'" by simp_all
    moreover from last \<open>new \<noteq> []\<close> have "last new = new ! i"
      using diff_Suc_1 [of i] by (simp add: last_conv_nth)
    ultimately have "e' = e" using r by simp
    with Inl last show ?thesis by simp
  qed
  moreover have "prefix (map fst new) es"
    using new(2) by (cases "fst (p s)") simp_all
  moreover have "\<forall>a. fst (p s) = Inr a \<longrightarrow> map fst new = es \<and> clean new \<and> rad1 (snd (p s)) = g'"
    using new(2) by auto
  ultimately show ?thesis using new(1) by blast
qed

lemma pipe_trace:
  assumes "\<And>w. rad1 s = Some w \<Longrightarrow> w = v"
  shows "\<exists>new cmds. trace (snd (pipe_plane_strain cl e nu inn_radius out_radius press AESIZE s)) = trace s @ new \<and>
           map fst new = map Sent cmds \<and>
           prefix cmds (pipe_commands v e nu inn_radius out_radius press AESIZE) \<and>
           (\<forall>a. fst (pipe_plane_strain cl e nu inn_radius out_radius press AESIZE s) = Inr a \<longrightarrow>
                cmds = pipe_commands v e nu inn_radius out_radius press AESIZE \<and> clean new) \<and>
           (\<forall>i x. i < length new \<and> snd (new ! i) = Raised x \<longrightarrow>
                Suc i = length new \<and> fst (pipe_plane_strain cl e nu inn_radius out_radius press AESIZE s) = Inl x)"
proof -
  let ?p = "pipe_plane_strain cl e nu inn_radius out_radius press AESIZE"
  let ?cs = "pipe_commands v e nu inn_radius out_radius press AESIZE"
  have "issues (rad1 s) (rad1 s) ?p (map Sent ?cs)"
    by (rule issues_pipe_plane_strain) (rule assms)
  from issuesD [OF this refl] obtain new where new:
    "trace (snd (?p s)) = trace s @ new" "prefix (map fst new) (map Sent ?cs)"
    "\<forall>a. fst (?p s) = Inr a \<longrightarrow> map fst new = map Sent ?cs \<and> clean new \<and> rad1 (snd (?p s)) = rad1 s"
    "\<forall>i e. i < length new \<and> snd (new ! i) = Raised e \<longrightarrow> Suc i = length new \<and> fst (?p s) = Inl e"
    by blast
  from prefix_map_rightE [OF new(2)]
  obtain cmds where cmds: "prefix cmds ?cs" "map fst new = map Sent cmds"
    by blast
  have "cmds = ?cs" if "fst (?p s) = Inr a" for a
  proof -
    from new(3) that have "map Sent cmds = map Sent ?cs" using cmds(2) by simp
    then show ?thesis by (simp add: inj_on_def)
  qed
  with new cmds show ?thesis by blast
qed

lemmas run_pipe = pipe_plane_strain_def run_def and_then_def call_def remote_call_def ret_def
  nodal_eqv_stress_def nnum_all_def read_rad1_def

lemma pipe_command_names:
  "map cmd_name (pipe_commands v e nu inn_radius out_radius press AESIZE) = pipe_command_names"
  by (simp add: pipe_commands_def pipe_setup_commands_def pipe_solve_commands_def pipe_command_names_def)

lemma event_name_o_Sent [simp]: "event_name \<circ> Sent = cmd_name"
  by (simp add: fun_eq_iff)

lemma returnsI: "fst (p s) = Inr a \<Longrightarrow> returns p s"
  unfolding returns_def by blast

lemma pipe_issued:
  assumes "\<And>w. rad1 s = Some w \<Longrightarrow> w = v"
  shows "\<exists>cmds. issued (pipe_plane_strain cl e nu inn_radius out_radius press AESIZE) s = map Sent cmds \<and>
           prefix cmds (pipe_commands v e nu inn_radius out_radius press AESIZE) \<and>
           (returns (pipe_plane_strain cl e nu inn_radius out_radius press AESIZE) s \<longrightarrow>
              cmds = pipe_commands v e nu inn_radius out_radius press AESIZE)"
  using pipe_trace [of s v cl e nu inn_radius out_radius press AESIZE, OF assms]
  by (auto simp: issued_def returns_def)


subsection \<open>The trace of the sweep\<close>

lemma issues_sweep_body:
  "issues (Some v) (Some v) (sweep_body cl e nu rad2 pressure esize)
     (map Sent (pipe_commands v e nu v rad2 pressure esize))"
  unfolding sweep_body_def
proof (rule issues_read_rad1_then)
  fix w assume "Some v = Some w"
  then have w: "w = v" by simp
  have "issues (Some v) (Some v)
     (and_then (pipe_plane_strain cl e nu v rad2 pressure esize) (\<lambda>(dof, eqv_stress).
      and_then (modify (\<lambda>s. s\<lparr>num_dof := num_dof s @ [dof]\<rparr>)) (\<lambda>_.
      modify (\<lambda>s. s\<lparr>max_stress := max_stress s @ [eqv_stress]\<rparr>))))
     (map Sent (pipe_commands v e nu v rad2 pressure esize) @ ([] @ []))"
  proof (rule issues_seq)
    show "issues (Some v) (Some v) (pipe_plane_strain cl e nu v rad2 pressure esize)
            (map Sent (pipe_commands v e nu v rad2 pressure esize))"
      by (rule issues_pipe_plane_strain) simp
    show "issues (Some v) (Some v)
            (case a of (dof, eqv_stress) \<Rightarrow>
               and_then (modify (\<lambda>s. s\<lparr>num_dof := num_dof s @ [dof]\<rparr>)) (\<lambda>_.
               modify (\<lambda>s. s\<lparr>max_stress := max_stress s @ [eqv_stress]\<rparr>)))
            ([] @ [])" for a :: "int \<times> real"
      by (cases a) (simp add: issues_def and_then_def modify_def)
  qed
  then show "issues (Some v) (Some v)
     (and_then (pipe_plane_strain cl e nu w rad2 pressure esize) (\<lambda>(dof, eqv_stress).
      and_then (modify (\<lambda>s. s\<lparr>num_dof := num_dof s @ [dof]\<rparr>)) (\<lambda>_.
      modify (\<lambda>s. s\<lparr>max_stress := max_stress s @ [eqv_stress]\<rparr>))))
     (map Sent (pipe_commands v e nu v rad2 pressure esize))"
    by (simp add: w)
qed

lemma issues_sweep:
  "issues (Some 175) (Some 175) (sweep cl sizes)
     (concat (map (\<lambda>esize. map Sent (pipe_commands 175 200000 0.3 175 200 100 esize)) sizes))"
  unfolding sweep_def by (rule issues_for_each) (rule issues_sweep_body)

lemma issues_convergence_study:
  "issues g (Some 175) (convergence_study cl)
     (concat (map (\<lambda>esize. map Sent (pipe_commands 175 200000 0.3 175 200 100 esize)) esizes))"
proof -
  have "issues g (Some 175) (convergence_study cl)
     ([] @ [] @ [] @ concat (map (\<lambda>esize. map Sent (pipe_commands 175 200000 0.3 175 200 100 esize)) esizes))"
    unfolding convergence_study_def
    by (rule issues_and_then [where g' = "Some 175"], rule issues_modify, simp,
        intro issues_seq issues_modify issues_sweep) simp_all
  then show ?thesis by simp
qed

lemma propagatesI:
  fixes p :: "('s, 'a) prog"
  assumes "\<And>s :: 's state. issues (rad1 s) (g' s) p (es s)"
  shows "propagates p"
  unfolding propagates_def
proof
  fix s
  from issuesD [OF assms [of s] refl]
  show "\<exists>new. trace (snd (p s)) = trace s @ new \<and>
          (\<forall>i x. i < length new \<and> snd (new ! i) = Raised x \<longrightarrow>
             Suc i = length new \<and> fst (p s) = Inl x)"
    by blast
qed

subsection \<open>Runs that return\<close>

lemma run_keeps_rad1: "fst (run cl cs s) = Inr a \<Longrightarrow> rad1 (snd (run cl cs s)) = rad1 s"
  using issuesD [OF issues_run [of "rad1 s" cl cs] refl] by blast

lemma read_rad1_returns:
  "fst (read_rad1 s) = Inr w \<Longrightarrow> rad1 s = Some w \<and> snd (read_rad1 s) = s"
  by (auto simp: read_rad1_def split: option.splits)

lemma pipe_returns_rad1:
  assumes "returns (pipe_plane_strain cl e nu inn_radius out_radius press AESIZE) s"
  shows "\<exists>r. rad1 s = Some r"
proof -
  from assms obtain b where
    "fst (pipe_plane_strain cl e nu inn_radius out_radius press AESIZE s) = Inr b"
    by (auto simp: returns_def)
  from and_then_returns [OF this [unfolded pipe_plane_strain_unfold]]
  obtain a where a: "fst (run cl (pipe_setup_commands e nu inn_radius out_radius AESIZE) s) = Inr a"
    and rest: "fst (and_then read_rad1 (\<lambda>rad1_value.
       and_then (run cl (pipe_solve_commands rad1_value press)) (\<lambda>_.
       and_then (nodal_eqv_stress cl) (\<lambda>stress.
       and_then (np_max stress) (\<lambda>max_eqv_stress.
       and_then (nnum_all cl) (\<lambda>all_dof.
       ret (2 * int (length all_dof), max_eqv_stress))))))
         (snd (run cl (pipe_setup_commands e nu inn_radius out_radius AESIZE) s))) = Inr b"
    using \<open>fst (pipe_plane_strain cl e nu inn_radius out_radius press AESIZE s) = Inr b\<close>
    unfolding pipe_plane_strain_unfold by metis
  from and_then_returns [OF rest] obtain w where
    "fst (read_rad1 (snd (run cl (pipe_setup_commands e nu inn_radius out_radius AESIZE) s))) = Inr w"
    by blast
  from read_rad1_returns [OF this] run_keeps_rad1 [OF a] show ?thesis by simp
qed

lemma pipe_issued_returns:
  assumes "returns (pipe_plane_strain cl e nu inn_radius out_radius press AESIZE) s"
  shows "\<exists>r. rad1 s = Some r \<and>
           issued (pipe_plane_strain cl e nu inn_radius out_radius press AESIZE) s =
           map Sent (pipe_commands r e nu inn_radius out_radius press AESIZE)"
proof -
  from pipe_returns_rad1 [OF assms] obtain r where r: "rad1 s = Some r" by blast
  then have "\<And>w. rad1 s = Some w \<Longrightarrow> w = r" by simp
  from pipe_issued [of s r cl e nu inn_radius out_radius press AESIZE, OF this] assms r
  show ?thesis by auto
qed

lemma pipe_commands_lsel:
  "map Sent (pipe_commands r e nu inn_radius out_radius press AESIZE) ! 17 =
     Sent (Cmd ''lsel'' [Str ''S'', Str ''RADIUS''] [(''vmin'', Num r)])"
  by (simp add: pipe_commands_def pipe_setup_commands_def pipe_solve_commands_def)

lemma take_two_prefix:
  assumes "prefix cmds (c1 # c2 # rest)"
  shows "take 2 cmds = take (length cmds) [c1, c2]"
proof -
  from assms obtain n where "cmds = take n (c1 # c2 # rest)"
    by (metis prefix_def append_eq_conv_conj)
  then show ?thesis
    by (cases n; cases "n - 1") (auto simp: take_Cons')
qed




subsection \<open>Concrete runs of \<open>pipe_plane_strain\<close>\<close>

lemma steady_pipe_value:
  "mapdl s = Some r \<Longrightarrow> rad1 s = Some w \<Longrightarrow>
     fst (pipe_plane_strain steady_client e nu inn_radius out_radius press AESIZE s) = Inr (8, 702.42)"
  by (simp add: run_pipe steady_client_def)

lemma steady_pipe_returns:
  "mapdl s = Some r \<Longrightarrow> rad1 s = Some w \<Longrightarrow>
     returns (pipe_plane_strain steady_client e nu inn_radius out_radius press AESIZE) s"
  using steady_pipe_value by (rule returnsI)

lemma failing_pipe_run:
  "fst (pipe_plane_strain failing_client 200000 0.3 175 200 100 5 session_state) = Inl (LibraryError ''solve'') \<and>
   length (trace (snd (pipe_plane_strain failing_client 200000 0.3 175 200 100 5 session_state))) = 28 \<and>
   snd (trace (snd (pipe_plane_strain failing_client 200000 0.3 175 200 100 5 session_state)) ! 27) = Raised (LibraryError ''solve'')"
  by (simp add: run_pipe failing_client_def session_state_def)

lemma esizes_Cons: "esizes = 10 powr 1.4 # tl esizes"
  by (simp add: esizes_def logspace_def upt_conv_Cons)

lemma failing_study_run:
  "fst (convergence_study failing_client session_state) = Inl (LibraryError ''solve'') \<and>
   length (trace (snd (convergence_study failing_client session_state))) = 28 \<and>
   snd (trace (snd (convergence_study failing_client session_state)) ! 27) = Raised (LibraryError ''solve'')"
  apply (subst (1 2 3) convergence_study_def)
  apply (subst (1 2 3) esizes_Cons)
  apply (simp add: sweep_def sweep_body_def modify_def run_pipe failing_client_def session_state_def)
  done

subsection \<open>The result lists\<close>

lemma keeps_lists_ret: "keeps_lists (ret x)"
  by (simp add: keeps_lists_def ret_def)

lemma keeps_lists_remote_call: "keeps_lists (remote_call c f rep)"
  by (auto simp: keeps_lists_def remote_call_def split: option.splits prod.splits sum.splits)

lemma keeps_lists_read_rad1: "keeps_lists read_rad1"
  by (auto simp: keeps_lists_def read_rad1_def split: option.splits)

lemma keeps_lists_np_max: "keeps_lists (np_max xs)"
  by (cases xs) (simp_all add: keeps_lists_def ret_def raise_def)

lemma keeps_lists_and_then:
  assumes "keeps_lists p" and "\<And>a. keeps_lists (f a)"
  shows "keeps_lists (and_then p f)"
  unfolding keeps_lists_def
proof
  fix s
  show "num_dof (snd (and_then p f s)) = num_dof s \<and> max_stress (snd (and_then p f s)) = max_stress s"
  proof (cases "fst (p s)")
    case (Inl e)
    from and_then_Inl [of p s e f] Inl assms(1) show ?thesis
      by (simp add: keeps_lists_def)
  next
    case (Inr a)
    from and_then_Inr [of p s a f] Inr assms(1) assms(2) [of a] show ?thesis
      by (simp add: keeps_lists_def)
  qed
qed

lemma keeps_lists_for_each: "(\<And>x. keeps_lists (body x)) \<Longrightarrow> keeps_lists (for_each xs body)"
  by (induction xs) (simp_all add: keeps_lists_ret keeps_lists_and_then)

lemma keeps_lists_run: "keeps_lists (run cl cs)"
  unfolding run_def call_def by (intro keeps_lists_for_each keeps_lists_remote_call)

lemma keeps_lists_pipe_plane_strain:
  "keeps_lists (pipe_plane_strain cl e nu inn_radius out_radius press AESIZE)"
  unfolding pipe_plane_strain_unfold nodal_eqv_stress_def nnum_all_def
  by (intro keeps_lists_and_then keeps_lists_run keeps_lists_read_rad1 keeps_lists_remote_call
      keeps_lists_np_max keeps_lists_ret)

lemma sweep_body_returns:
  assumes "fst (sweep_body cl e nu rad2 pressure esize s) = Inr u"
  shows "\<exists>r dof peak.
           rad1 s = Some r \<and>
           fst (pipe_plane_strain cl e nu r rad2 pressure esize s) = Inr (dof, peak) \<and>
           num_dof (snd (sweep_body cl e nu rad2 pressure esize s)) = num_dof s @ [dof] \<and>
           max_stress (snd (sweep_body cl e nu rad2 pressure esize s)) = max_stress s @ [peak]"
proof -
  let ?k = "\<lambda>r. and_then (pipe_plane_strain cl e nu r rad2 pressure esize) (\<lambda>(dof, eqv_stress).
     and_then (modify (\<lambda>s. s\<lparr>num_dof := num_dof s @ [dof]\<rparr>)) (\<lambda>_.
     modify (\<lambda>s. s\<lparr>max_stress := max_stress s @ [eqv_stress]\<rparr>)))"
  have b: "sweep_body cl e nu rad2 pressure esize = and_then read_rad1 ?k"
    by (simp add: sweep_body_def)
  from assms have r0: "fst (and_then read_rad1 ?k s) = Inr u" by (simp add: b)
  from and_then_returns [OF r0] obtain r where
    r: "fst (read_rad1 s) = Inr r" and e1: "and_then read_rad1 ?k s = ?k r (snd (read_rad1 s))"
    by blast
  from read_rad1_returns [OF r] have rs: "rad1 s = Some r" "snd (read_rad1 s) = s" by simp_all
  with r0 e1 have r1: "fst (?k r s) = Inr u" by simp
  from and_then_returns [OF r1] obtain a where
    a: "fst (pipe_plane_strain cl e nu r rad2 pressure esize s) = Inr a"
    and e2: "?k r s = (case a of (dof, eqv_stress) \<Rightarrow>
       and_then (modify (\<lambda>s. s\<lparr>num_dof := num_dof s @ [dof]\<rparr>)) (\<lambda>_.
       modify (\<lambda>s. s\<lparr>max_stress := max_stress s @ [eqv_stress]\<rparr>)))
         (snd (pipe_plane_strain cl e nu r rad2 pressure esize s))"
    by blast
  obtain dof peak where dp: "a = (dof, peak)" by (cases a)
  from keeps_lists_pipe_plane_strain [of cl e nu r rad2 pressure esize]
  have keep: "num_dof (snd (pipe_plane_strain cl e nu r rad2 pressure esize s)) = num_dof s"
    "max_stress (snd (pipe_plane_strain cl e nu r rad2 pressure esize s)) = max_stress s"
    by (simp_all add: keeps_lists_def)
  have "num_dof (snd (sweep_body cl e nu rad2 pressure esize s)) = num_dof s @ [dof]"
    "max_stress (snd (sweep_body cl e nu rad2 pressure esize s)) = max_stress s @ [peak]"
    using e1 e2 rs(2) keep by (simp_all add: b dp and_then_def modify_def)
  with rs(1) a dp show ?thesis by simp
qed

lemma sweep_keeps_rad1:
  "fst (sweep cl sizes s) = Inr u \<Longrightarrow> rad1 s = Some 175 \<Longrightarrow> rad1 (snd (sweep cl sizes s)) = Some 175"
  using issuesD [OF issues_sweep [of cl sizes], of s] by auto

lemma sweep_snoc:
  "sweep cl (xs @ [x]) = and_then (sweep cl xs) (\<lambda>_. sweep_body cl 200000 0.3 200 100 x)"
  by (simp add: sweep_def for_each_snoc)

lemma sweep_collects:
  assumes "fst (sweep cl sizes s) = Inr u" and "rad1 s = Some 175"
  shows "num_dof (snd (sweep cl sizes s)) = num_dof s @ drop (length (num_dof s)) (num_dof (snd (sweep cl sizes s)))
     \<and> length (num_dof (snd (sweep cl sizes s))) = length (num_dof s) + length sizes
     \<and> max_stress (snd (sweep cl sizes s)) = max_stress s @ drop (length (max_stress s)) (max_stress (snd (sweep cl sizes s)))
     \<and> length (max_stress (snd (sweep cl sizes s))) = length (max_stress s) + length sizes
     \<and> (\<forall>i<length sizes.
          fst (pipe_plane_strain cl 200000 0.3 175 200 100 (sizes ! i) (snd (sweep cl (take i sizes) s))) =
          Inr (num_dof (snd (sweep cl sizes s)) ! (length (num_dof s) + i),
               max_stress (snd (sweep cl sizes s)) ! (length (max_stress s) + i)))"
  using assms(1)
proof (induction sizes arbitrary: u rule: rev_induct)
  case Nil
  then show ?case by (simp add: sweep_def ret_def)
next
  case (snoc x xs)
  let ?S = "snd (sweep cl xs s)"
  let ?F = "snd (sweep cl (xs @ [x]) s)"
  from snoc.prems have r0: "fst (and_then (sweep cl xs) (\<lambda>_. sweep_body cl 200000 0.3 200 100 x) s) = Inr u"
    by (simp add: sweep_snoc)
  from and_then_returns [OF r0] obtain a where
    a: "fst (sweep cl xs s) = Inr a"
    and e: "sweep cl (xs @ [x]) s = sweep_body cl 200000 0.3 200 100 x ?S"
    by (auto simp: sweep_snoc)
  note IH = snoc.IH [OF a]
  from sweep_keeps_rad1 [OF a assms(2)] have rS: "rad1 ?S = Some 175" .
  from snoc.prems e have "fst (sweep_body cl 200000 0.3 200 100 x ?S) = Inr u" by simp
  from sweep_body_returns [OF this] rS obtain dof peak where
    p: "fst (pipe_plane_strain cl 200000 0.3 175 200 100 x ?S) = Inr (dof, peak)"
    and nd: "num_dof ?F = num_dof ?S @ [dof]"
    and ms: "max_stress ?F = max_stress ?S @ [peak]"
    by (auto simp: e)
  from IH have lenS: "length (num_dof ?S) = length (num_dof s) + length xs"
    "length (max_stress ?S) = length (max_stress s) + length xs"
    and preS: "num_dof ?S = num_dof s @ drop (length (num_dof s)) (num_dof ?S)"
    "max_stress ?S = max_stress s @ drop (length (max_stress s)) (max_stress ?S)"
    by simp_all
  have 1: "num_dof ?F = num_dof s @ drop (length (num_dof s)) (num_dof ?F)"
    using preS(1) lenS(1) by (simp add: nd)
  have 2: "max_stress ?F = max_stress s @ drop (length (max_stress s)) (max_stress ?F)"
    using preS(2) lenS(2) by (simp add: ms)
  have 3: "fst (pipe_plane_strain cl 200000 0.3 175 200 100 ((xs @ [x]) ! i) (snd (sweep cl (take i (xs @ [x])) s))) =
          Inr (num_dof ?F ! (length (num_dof s) + i), max_stress ?F ! (length (max_stress s) + i))"
    if "i < length (xs @ [x])" for i
  proof (cases "i < length xs")
    case True
    with IH have "fst (pipe_plane_strain cl 200000 0.3 175 200 100 (xs ! i) (snd (sweep cl (take i xs) s))) =
          Inr (num_dof ?S ! (length (num_dof s) + i), max_stress ?S ! (length (max_stress s) + i))"
      by simp
    with True lenS show ?thesis
      by (simp add: nd ms nth_append)
  next
    case False
    with that have "i = length xs" by simp
    with p lenS show ?thesis
      by (simp add: nd ms nth_append)
  qed
  from 1 2 3 lenS show ?case
    by (simp add: nd ms)
qed

lemma length_esizes: "length esizes = 20"
  by (simp add: esizes_def logspace_def)

lemma convergence_study_eq:
  "convergence_study cl s = sweep cl esizes (s\<lparr>rad1 := Some 175, num_dof := [], max_stress := []\<rparr>)"
  by (simp add: convergence_study_def and_then_def modify_def)

subsection \<open>Programs that return when the client does\<close>

lemma completes_ret: "completes (ret x)"
  by (simp add: completes_def ret_def)

lemma completes_and_then:
  fixes p :: "('s, 'a) prog"
  assumes "completes p" and "\<And>a. completes (f a)"
  shows "completes (and_then p f)"
  unfolding completes_def
proof (intro allI impI)
  fix s :: "'s state"
  assume "ready s"
  with assms(1) obtain a where a: "fst (p s) = Inr a" and r: "ready (snd (p s))"
    by (auto simp: completes_def)
  from and_then_Inr [of p s a f] a assms(2) [of a] r
  show "(\<exists>b. fst (and_then p f s) = Inr b) \<and> ready (snd (and_then p f s))"
    by (simp add: completes_def)
qed

lemma completes_for_each: "(\<And>x. completes (body x)) \<Longrightarrow> completes (for_each xs body)"
  by (induction xs) (simp_all add: completes_ret completes_and_then)

lemma completes_remote_call:
  fixes f :: "'s \<Rightarrow> (exn + 'a) \<times> 's"
  assumes "\<And>r. \<exists>a r'. f r = (Inr a, r')"
  shows "completes (remote_call c f rep)"
  unfolding completes_def
proof (intro allI impI)
  fix s :: "'s state"
  assume "ready s"
  then obtain r where r: "mapdl s = Some r" and g: "rad1 s \<noteq> None"
    by (auto simp: ready_def)
  from assms [of r] obtain a r' where "f r = (Inr a, r')" by blast
  with r g show "(\<exists>a. fst (remote_call c f rep s) = Inr a) \<and> ready (snd (remote_call c f rep s))"
    by (simp add: remote_call_def ready_def)
qed

lemma completes_call: "dependable cl \<Longrightarrow> completes (call cl c)"
  unfolding call_def by (rule completes_remote_call) (simp add: dependable_def)

lemma completes_run: "dependable cl \<Longrightarrow> completes (run cl cs)"
  unfolding run_def by (rule completes_for_each) (rule completes_call)

lemma completes_nnum_all: "dependable cl \<Longrightarrow> completes (nnum_all cl)"
  unfolding nnum_all_def by (rule completes_remote_call) (simp add: dependable_def)

lemma completes_read_rad1: "completes read_rad1"
  by (auto simp: completes_def read_rad1_def ready_def)

lemma completes_stress_max:
  fixes cl :: "'s client"
  assumes "dependable cl" and "\<And>m. completes (k m)"
  shows "completes (and_then (nodal_eqv_stress cl) (\<lambda>stress. and_then (np_max stress) k))"
  unfolding completes_def
proof (intro allI impI)
  fix s :: "'s state"
  assume "ready s"
  then obtain r where r: "mapdl s = Some r" and g: "rad1 s \<noteq> None"
    by (auto simp: ready_def)
  from assms(1) obtain xs r' where q: "stress_query cl r = (Inr xs, r')" and "xs \<noteq> []"
    unfolding dependable_def by blast
  then obtain x ys where xs: "xs = x # ys" by (cases xs) auto
  let ?s1 = "s\<lparr>trace := trace s @ [(Sent (Cmd ''post_processing.nodal_eqv_stress'' [] []), Returned (Floats xs))],
              mapdl := Some r'\<rparr>"
  have "and_then (nodal_eqv_stress cl) (\<lambda>stress. and_then (np_max stress) k) s = k (fold max ys x) ?s1"
    using r q by (simp add: and_then_def nodal_eqv_stress_def remote_call_def xs ret_def)
  moreover have "ready ?s1"
    using g by (simp add: ready_def)
  ultimately show "(\<exists>a. fst (and_then (nodal_eqv_stress cl) (\<lambda>stress. and_then (np_max stress) k) s) = Inr a) \<and>
        ready (snd (and_then (nodal_eqv_stress cl) (\<lambda>stress. and_then (np_max stress) k) s))"
    using assms(2) [of "fold max ys x"] by (simp add: completes_def)
qed

lemma completes_pipe_plane_strain:
  "dependable cl \<Longrightarrow> completes (pipe_plane_strain cl e nu inn_radius out_radius press AESIZE)"
  unfolding pipe_plane_strain_unfold
  by (intro completes_and_then completes_run completes_read_rad1 completes_stress_max
      completes_nnum_all completes_ret)

lemma completes_sweep_body:
  assumes "dependable cl"
  shows "completes (sweep_body cl e nu rad2 pressure esize)"
  unfolding sweep_body_def
proof (intro completes_and_then completes_read_rad1 completes_pipe_plane_strain assms)
  fix w :: real and a :: "int \<times> real"
  show "completes (case a of (dof, eqv_stress) \<Rightarrow>
          and_then (modify (\<lambda>s. s\<lparr>num_dof := num_dof s @ [dof]\<rparr>)) (\<lambda>_.
          modify (\<lambda>s. s\<lparr>max_stress := max_stress s @ [eqv_stress]\<rparr>)))"
    by (cases a) (simp add: completes_def and_then_def modify_def ready_def)
qed

lemma completes_sweep: "dependable cl \<Longrightarrow> completes (sweep cl sizes)"
  unfolding sweep_def by (rule completes_for_each) (rule completes_sweep_body)

lemma convergence_study_returns:
  assumes "dependable cl" and "mapdl s \<noteq> None"
  shows "returns (convergence_study cl) s \<and> ready (snd (convergence_study cl s))"
  using completes_sweep [OF assms(1), of esizes] assms(2)
  by (simp add: completes_def returns_def convergence_study_eq ready_def)

lemma dependable_steady_client: "dependable steady_client"
  by (simp add: dependable_def steady_client_def)

subsection \<open>The plate geometry\<close>

lemma issues_plate_geometry:
  "issues g g (plate_geometry cl LENGTH WIDTH DEPTH RADIUS NUM)
     ([Launch] @
      map Sent [Cmd ''clear'' [] [], Cmd ''prep7'' [] [],
                Cmd ''block'' [Num 0, Num LENGTH, Num 0, Num WIDTH, Num 0, Num DEPTH] []] @
      concat (map (\<lambda>i. [Sent (Cmd ''cyl4'' [Num (of_int i * LENGTH / of_int (NUM + 1)), Num (WIDTH / 2),
                                  Num RADIUS, Str '''', Str '''', Str '''', Num (2 * DEPTH)] [])]) [1..NUM]) @
      map Sent [Cmd ''vsbv'' [Num 1, Str ''all''] [], Cmd ''vplot'' [Str ''all''] []])"
  unfolding plate_geometry_def
  by (intro issues_seq issues_launch_mapdl issues_run issues_for_each issues_call)

lemma plate_geometry_events:
  "[Launch] @
      map Sent [Cmd ''clear'' [] [], Cmd ''prep7'' [] [],
                Cmd ''block'' [Num 0, Num LENGTH, Num 0, Num WIDTH, Num 0, Num DEPTH] []] @
      concat (map (\<lambda>i. [Sent (Cmd ''cyl4'' [Num (of_int i * LENGTH / of_int (NUM + 1)), Num (WIDTH / 2),
                                  Num RADIUS, Str '''', Str '''', Str '''', Num (2 * DEPTH)] [])]) [1..NUM]) @
      map Sent [Cmd ''vsbv'' [Num 1, Str ''all''] [], Cmd ''vplot'' [Str ''all''] []] =
   [Launch, Sent (Cmd ''clear'' [] []), Sent (Cmd ''prep7'' [] []),
      Sent (Cmd ''block'' [Num 0, Num LENGTH, Num 0, Num WIDTH, Num 0, Num DEPTH] [])] @
     map (\<lambda>i. Sent (Cmd ''cyl4'' [Num (of_int i * LENGTH / of_int (NUM + 1)), Num (WIDTH / 2),
                                  Num RADIUS, Str '''', Str '''', Str '''', Num (2 * DEPTH)] [])) [1..NUM] @
     [Sent (Cmd ''vsbv'' [Num 1, Str ''all''] []), Sent (Cmd ''vplot'' [Str ''all''] [])]"
  by simp

lemma upto_1_3: "[1..3::int] = [1, 2, 3]"
  by (simp add: upto_rec1)

lemma steady_plate_geometry_returns:
  "returns (plate_geometry steady_client 5 2.5 0.1 0.5 3) fresh_kernel"
  by (simp add: returns_def plate_geometry_def launch_mapdl_def run_def and_then_def call_def
      remote_call_def ret_def steady_client_def fresh_kernel_def upto_1_3)

subsection \<open>Whole notebooks\<close>

lemma issues_plot_convergence: "issues g g plot_convergence []"
  by (simp add: issues_def plot_convergence_def)

lemma after_launch:
  fixes rest :: "('s, 'a) prog"
  assumes "\<And>g. issues g (g' g) rest (map Sent cmds)"
  shows "\<exists>cs. issued (and_then (launch_mapdl cl) (\<lambda>_. rest)) s = Launch # map Sent cs \<and>
           prefix cs cmds \<and>
           (returns (and_then (launch_mapdl cl) (\<lambda>_. rest)) s \<longrightarrow> cs = cmds)"
proof (cases "launch cl")
  case (Inl e)
  then have "and_then (launch_mapdl cl) (\<lambda>_. rest) s =
      (Inl e, s\<lparr>trace := trace s @ [(Launch, Raised e)]\<rparr>)"
    by (simp add: and_then_def launch_mapdl_def)
  then have "issued (and_then (launch_mapdl cl) (\<lambda>_. rest)) s = Launch # map Sent []"
    "\<not> returns (and_then (launch_mapdl cl) (\<lambda>_. rest)) s"
    by (simp_all add: issued_def returns_def)
  then show ?thesis
    by (intro exI [of _ "[]"]) simp
next
  case (Inr r)
  let ?s1 = "s\<lparr>trace := trace s @ [(Launch, Returned NoValue)], mapdl := Some r\<rparr>"
  from Inr have eq: "and_then (launch_mapdl cl) (\<lambda>_. rest) s = rest ?s1"
    by (simp add: and_then_def launch_mapdl_def)
  from issuesD [OF assms [of "rad1 ?s1"] refl] obtain new where
    new: "trace (snd (rest ?s1)) = trace ?s1 @ new" "prefix (map fst new) (map Sent cmds)"
    "\<forall>a. fst (rest ?s1) = Inr a \<longrightarrow> map fst new = map Sent cmds"
    by blast
  from prefix_map_rightE [OF new(2)] obtain cs where cs: "prefix cs cmds" "map fst new = map Sent cs"
    by blast
  have "issued (and_then (launch_mapdl cl) (\<lambda>_. rest)) s = Launch # map Sent cs"
    using new(1) cs(2) by (simp add: eq issued_def)
  moreover have "cs = cmds" if "returns (and_then (launch_mapdl cl) (\<lambda>_. rest)) s"
  proof -
    from that new(3) cs(2) have "map Sent cs = map Sent cmds"
      by (auto simp: returns_def eq)
    then show ?thesis by (simp add: inj_on_def)
  qed
  ultimately show ?thesis using cs(1) by blast
qed

lemma exit_only_last:
  assumes "prefix cs (body @ [c])" and "''exit'' \<notin> cmd_name ` set body"
    and "i < length cs" and "cmd_name (cs ! i) = ''exit''"
  shows "Suc i = length cs"
proof (rule ccontr)
  assume n: "Suc i \<noteq> length cs"
  from assms(1) have len: "length cs \<le> Suc (length body)"
    using prefix_length_le by fastforce
  with n assms(3) have i: "i < length body" by simp
  from assms(1) assms(3) have "cs ! i = (body @ [c]) ! i"
    by (metis prefix_def nth_append)
  with i have "cs ! i = body ! i" by (simp add: nth_append)
  with i assms(2) assms(4) show False
    by (metis image_eqI nth_mem)
qed

lemma launch_first_exit_lastI:
  fixes rest :: "('s, unit) prog"
  assumes "\<And>g. issues g (g' g) rest (map Sent (body @ [Cmd ''exit'' [] []]))"
    and "''exit'' \<notin> cmd_name ` set body"
  shows "launch_first_exit_last (and_then (launch_mapdl cl) (\<lambda>_. rest))"
proof -
  let ?p = "and_then (launch_mapdl cl) (\<lambda>_. rest)"
  from after_launch [of g' rest "body @ [Cmd ''exit'' [] []]" cl fresh_kernel, OF assms(1)]
  obtain cs where cs: "issued ?p fresh_kernel = Launch # map Sent cs"
    "prefix cs (body @ [Cmd ''exit'' [] []])"
    "returns ?p fresh_kernel \<longrightarrow> cs = body @ [Cmd ''exit'' [] []]"
    by blast
  have "\<forall>i<length cs. cmd_name (cs ! i) = ''exit'' \<longrightarrow> Suc i = length cs"
    using exit_only_last [OF cs(2) assms(2)] by blast
  moreover have "returns ?p fresh_kernel \<longrightarrow> cs \<noteq> [] \<and> last cs = Cmd ''exit'' [] []"
    using cs(3) by simp
  ultimately show ?thesis
    unfolding launch_first_exit_last_def using cs(1) by blast
qed

lemma issues_pipe_notebook_rest:
  "issues g (Some 175)
     (and_then (call cl (Cmd ''__str__'' [] [])) (\<lambda>_.
      and_then (convergence_study cl) (\<lambda>_.
      and_then plot_convergence (\<lambda>_.
      and_then (run cl
        [Cmd ''allsel'' [Str ''ALL''] [],
         Cmd ''eplot'' [] [(''title'', Str ''Element Plot''), (''line_width'', Num 1),
                           (''show_bounds'', Bool True), (''cpos'', Str ''xy'')]]) (\<lambda>_.
      and_then (run cl
        [Cmd ''post1'' [] [],
         Cmd ''set'' [Num 1, Num 1] [],
         Cmd ''post_processing.plot_nodal_displacement'' [Str ''NORM'']
             [(''cpos'', Str ''xy''), (''cmap'', Str ''magma'')]]) (\<lambda>_.
      and_then (run cl
        [Cmd ''post_processing.plot_nodal_eqv_stress'' [] [(''cpos'', Str ''xy''), (''cmap'', Str ''magma'')]]) (\<lambda>_.
      call cl (Cmd ''exit'' [] []))))))))
     (map Sent
       ((Cmd ''__str__'' [] [] #
         concat (map (\<lambda>esize. pipe_commands 175 200000 0.3 175 200 100 esize) esizes) @
         [Cmd ''allsel'' [Str ''ALL''] [],
          Cmd ''eplot'' [] [(''title'', Str ''Element Plot''), (''line_width'', Num 1),
                            (''show_bounds'', Bool True), (''cpos'', Str ''xy'')],
          Cmd ''post1'' [] [],
          Cmd ''set'' [Num 1, Num 1] [],
          Cmd ''post_processing.plot_nodal_displacement'' [Str ''NORM'']
              [(''cpos'', Str ''xy''), (''cmap'', Str ''magma'')],
          Cmd ''post_processing.plot_nodal_eqv_stress'' [] [(''cpos'', Str ''xy''), (''cmap'', Str ''magma'')]])
        @ [Cmd ''exit'' [] []]))"
  (is "issues g (Some 175) (and_then ?str (\<lambda>_. and_then ?study (\<lambda>_. ?tail))) ?events")
proof -
  have tail: "issues (Some 175) (Some 175) ?tail
     ([] @ map Sent
        [Cmd ''allsel'' [Str ''ALL''] [],
         Cmd ''eplot'' [] [(''title'', Str ''Element Plot''), (''line_width'', Num 1),
                           (''show_bounds'', Bool True), (''cpos'', Str ''xy'')]] @
      map Sent
        [Cmd ''post1'' [] [],
         Cmd ''set'' [Num 1, Num 1] [],
         Cmd ''post_processing.plot_nodal_displacement'' [Str ''NORM'']
             [(''cpos'', Str ''xy''), (''cmap'', Str ''magma'')]] @
      map Sent
        [Cmd ''post_processing.plot_nodal_eqv_stress'' [] [(''cpos'', Str ''xy''), (''cmap'', Str ''magma'')]] @
      [Sent (Cmd ''exit'' [] [])])"
    (is "issues _ _ _ ?tail_events")
    by (intro issues_seq issues_plot_convergence issues_run issues_call)
  have "issues g (Some 175) (and_then ?str (\<lambda>_. and_then ?study (\<lambda>_. ?tail)))
     ([Sent (Cmd ''__str__'' [] [])] @
      concat (map (\<lambda>esize. map Sent (pipe_commands 175 200000 0.3 175 200 100 esize)) esizes) @
      ?tail_events)"
    by (rule issues_and_then [OF issues_call], rule issues_and_then [OF issues_convergence_study])
       (rule tail)
  then show ?thesis
    by (simp add: map_concat comp_def)
qed

lemma pipe_commands_names_set:
  "cmd_name ` set (pipe_commands v e nu inn_radius out_radius press AESIZE) = set pipe_command_names"
  using pipe_command_names [of v e nu inn_radius out_radius press AESIZE]
  by (metis set_map)

lemma exit_not_pipe_command: "''exit'' \<notin> set pipe_command_names"
  by (simp add: pipe_command_names_def)

lemma issues_plate_notebook_rest:
  "issues g g
     (and_then
       (and_then (run cl
         [Cmd ''clear'' [] [],
          Cmd ''prep7'' [] [],
          Cmd ''block'' [Num 0, Num LENGTH, Num 0, Num WIDTH, Num 0, Num DEPTH] []]) (\<lambda>_.
        and_then (for_each [1..NUM] (\<lambda>i.
          call cl (Cmd ''cyl4'' [Num (of_int i * LENGTH / of_int (NUM + 1)), Num (WIDTH / 2), Num RADIUS,
                                Str '''', Str '''', Str '''', Num (2 * DEPTH)] []))) (\<lambda>_.
        run cl
         [Cmd ''vsbv'' [Num 1, Str ''all''] [],
          Cmd ''vplot'' [Str ''all''] []]))) (\<lambda>_.
      and_then (run cl
        [Cmd ''lesize'' [Str ''ALL'', Num 0.15] [(''layer1'', Num 1)],
         Cmd ''mp'' [Str ''ex'', Num 1, Num E] [],
         Cmd ''mp'' [Str ''nuxy'', Num 1, Num NU] [],
         Cmd ''et'' [Num 1, Str ''SOLID186''] [],
         Cmd ''mshape'' [Num 1, Str ''3D''] [],
         Cmd ''mshkey'' [Num 0] [],
         Cmd ''vmesh'' [Str ''all''] [],
         Cmd ''eplot'' [] []]) (\<lambda>_.
      and_then (run cl
        [Cmd ''nsel'' [Str ''s'', Str ''loc'', Str ''x'', Num 0] [],
         Cmd ''d'' [Str ''all'', Str ''all'', Num 0] [],
         Cmd ''nsel'' [Str ''s'', Str ''loc'', Str ''x'', Num LENGTH] [],
         Cmd ''sf'' [Str ''all'', Str ''pres'', Num PRESSURE] [],
         Cmd ''allsel'' [] [],
         Cmd ''finish'' [] []]) (\<lambda>_.
      and_then (run cl
        [Cmd ''slashsolu'' [] [],
         Cmd ''solve'' [] [],
         Cmd ''finish'' [] []]) (\<lambda>_.
      and_then (run cl
        [Cmd ''result'' [] [],
         Cmd ''result.plot_principal_nodal_stress'' [Num 0, Str ''seqv'']
             [(''background'', Str ''w''), (''show_edges'', Bool True),
              (''text_color'', Str ''k''), (''add_text'', Bool True)]]) (\<lambda>_.
      call cl (Cmd ''exit'' [] [])))))))
     (map Sent
       (([Cmd ''clear'' [] [],
          Cmd ''prep7'' [] [],
          Cmd ''block'' [Num 0, Num LENGTH, Num 0, Num WIDTH, Num 0, Num DEPTH] []] @
         map (\<lambda>i. Cmd ''cyl4'' [Num (of_int i * LENGTH / of_int (NUM + 1)), Num (WIDTH / 2), Num RADIUS,
                                Str '''', Str '''', Str '''', Num (2 * DEPTH)] []) [1..NUM] @
         [Cmd ''vsbv'' [Num 1, Str ''all''] [],
          Cmd ''vplot'' [Str ''all''] [],
          Cmd ''lesize'' [Str ''ALL'', Num 0.15] [(''layer1'', Num 1)],
          Cmd ''mp'' [Str ''ex'', Num 1, Num E] [],
          Cmd ''mp'' [Str ''nuxy'', Num 1, Num NU] [],
          Cmd ''et'' [Num 1, Str ''SOLID186''] [],
          Cmd ''mshape'' [Num 1, Str ''3D''] [],
          Cmd ''mshkey'' [Num 0] [],
          Cmd ''vmesh'' [Str ''all''] [],
          Cmd ''eplot'' [] [],
          Cmd ''nsel'' [Str ''s'', Str ''loc'', Str ''x'', Num 0] [],
          Cmd ''d'' [Str ''all'', Str ''all'', Num 0] [],
          Cmd ''nsel'' [Str ''s'', Str ''loc'', Str ''x'', Num LENGTH] [],
          Cmd ''sf'' [Str ''all'', Str ''pres'', Num PRESSURE] [],
          Cmd ''allsel'' [] [],
          Cmd ''finish'' [] [],
          Cmd ''slashsolu'' [] [],
          Cmd ''solve'' [] [],
          Cmd ''finish'' [] [],
          Cmd ''result'' [] [],
          Cmd ''result.plot_principal_nodal_stress'' [Num 0, Str ''seqv'']
              [(''background'', Str ''w''), (''show_edges'', Bool True),
               (''text_color'', Str ''k''), (''add_text'', Bool True)]])
        @ [Cmd ''exit'' [] []]))"
  (is "issues g g ?rest ?events")
proof -
  have "issues g g ?rest
     ((map Sent [Cmd ''clear'' [] [],
          Cmd ''prep7'' [] [],
          Cmd ''block'' [Num 0, Num LENGTH, Num 0, Num WIDTH, Num 0, Num DEPTH] []] @
       concat (map (\<lambda>i. [Sent (Cmd ''cyl4'' [Num (of_int i * LENGTH / of_int (NUM + 1)), Num (WIDTH / 2), Num RADIUS,
                                Str '''', Str '''', Str '''', Num (2 * DEPTH)] [])]) [1..NUM]) @
       map Sent [Cmd ''vsbv'' [Num 1, Str ''all''] [],
          Cmd ''vplot'' [Str ''all''] []]) @
      map Sent [Cmd ''lesize'' [Str ''ALL'', Num 0.15] [(''layer1'', Num 1)],
         Cmd ''mp'' [Str ''ex'', Num 1, Num E] [],
         Cmd ''mp'' [Str ''nuxy'', Num 1, Num NU] [],
         Cmd ''et'' [Num 1, Str ''SOLID186''] [],
         Cmd ''mshape'' [Num 1, Str ''3D''] [],
         Cmd ''mshkey'' [Num 0] [],
         Cmd ''vmesh'' [Str ''all''] [],
         Cmd ''eplot'' [] []] @
      map Sent [Cmd ''nsel'' [Str ''s'', Str ''loc'', Str ''x'', Num 0] [],
         Cmd ''d'' [Str ''all'', Str ''all'', Num 0] [],
         Cmd ''nsel'' [Str ''s'', Str ''loc'', Str ''x'', Num LENGTH] [],
         Cmd ''sf'' [Str ''all'', Str ''pres'', Num PRESSURE] [],
         Cmd ''allsel'' [] [],
         Cmd ''finish'' [] []] @
      map Sent [Cmd ''slashsolu'' [] [],
         Cmd ''solve'' [] [],
         Cmd ''finish'' [] []] @
      map Sent [Cmd ''result'' [] [],
         Cmd ''result.plot_principal_nodal_stress'' [Num 0, Str ''seqv'']
             [(''background'', Str ''w''), (''show_edges'', Bool True),
              (''text_color'', Str ''k''), (''add_text'', Bool True)]] @
      [Sent (Cmd ''exit'' [] [])])"
    by (intro issues_seq issues_run issues_for_each issues_call)
  then show ?thesis
    by (simp add: comp_def)
qed

lemma plate_notebook_eq:
  "plate_notebook cl LENGTH WIDTH DEPTH RADIUS NUM E NU PRESSURE =
   and_then (launch_mapdl cl) (\<lambda>_.
     and_then
       (and_then (run cl
         [Cmd ''clear'' [] [],
          Cmd ''prep7'' [] [],
          Cmd ''block'' [Num 0, Num LENGTH, Num 0, Num WIDTH, Num 0, Num DEPTH] []]) (\<lambda>_.
        and_then (for_each [1..NUM] (\<lambda>i.
          call cl (Cmd ''cyl4'' [Num (of_int i * LENGTH / of_int (NUM + 1)), Num (WIDTH / 2), Num RADIUS,
                                Str '''', Str '''', Str '''', Num (2 * DEPTH)] []))) (\<lambda>_.
        run cl
         [Cmd ''vsbv'' [Num 1, Str ''all''] [],
          Cmd ''vplot'' [Str ''all''] []]))) (\<lambda>_.
      and_then (run cl
        [Cmd ''lesize'' [Str ''ALL'', Num 0.15] [(''layer1'', Num 1)],
         Cmd ''mp'' [Str ''ex'', Num 1, Num E] [],
         Cmd ''mp'' [Str ''nuxy'', Num 1, Num NU] [],
         Cmd ''et'' [Num 1, Str ''SOLID186''] [],
         Cmd ''mshape'' [Num 1, Str ''3D''] [],
         Cmd ''mshkey'' [Num 0] [],
         Cmd ''vmesh'' [Str ''all''] [],
         Cmd ''eplot'' [] []]) (\<lambda>_.
      and_then (run cl
        [Cmd ''nsel'' [Str ''s'', Str ''loc'', Str ''x'', Num 0] [],
         Cmd ''d'' [Str ''all'', Str ''all'', Num 0] [],
         Cmd ''nsel'' [Str ''s'', Str ''loc'', Str ''x'', Num LENGTH] [],
         Cmd ''sf'' [Str ''all'', Str ''pres'', Num PRESSURE] [],
         Cmd ''allsel'' [] [],
         Cmd ''finish'' [] []]) (\<lambda>_.
      and_then (run cl
        [Cmd ''slashsolu'' [] [],
         Cmd ''solve'' [] [],
         Cmd ''finish'' [] []]) (\<lambda>_.
      and_then (run cl
        [Cmd ''result'' [] [],
         Cmd ''result.plot_principal_nodal_stress'' [Num 0, Str ''seqv'']
             [(''background'', Str ''w''), (''show_edges'', Bool True),
              (''text_color'', Str ''k''), (''add_text'', Bool True)]]) (\<lambda>_.
      call cl (Cmd ''exit'' [] [])))))))"
  unfolding plate_notebook_def plate_geometry_def
  by (subst and_then_assoc) (rule refl)

lemma pipe_notebook_returns:
  fixes cl :: "'s client"
  assumes "dependable cl"
  shows "returns (pipe_notebook cl) fresh_kernel"
proof -
  let ?tail = "and_then (run cl
        [Cmd ''allsel'' [Str ''ALL''] [],
         Cmd ''eplot'' [] [(''title'', Str ''Element Plot''), (''line_width'', Num 1),
                           (''show_bounds'', Bool True), (''cpos'', Str ''xy'')]]) (\<lambda>_.
      and_then (run cl
        [Cmd ''post1'' [] [],
         Cmd ''set'' [Num 1, Num 1] [],
         Cmd ''post_processing.plot_nodal_displacement'' [Str ''NORM'']
             [(''cpos'', Str ''xy''), (''cmap'', Str ''magma'')]]) (\<lambda>_.
      and_then (run cl
        [Cmd ''post_processing.plot_nodal_eqv_stress'' [] [(''cpos'', Str ''xy''), (''cmap'', Str ''magma'')]]) (\<lambda>_.
      call cl (Cmd ''exit'' [] []))))"
  from assms obtain r where r: "launch cl = Inr r"
    by (auto simp: dependable_def)
  define s1 :: "'s state" where "s1 = fresh_kernel\<lparr>trace := [(Launch, Returned NoValue)], mapdl := Some r\<rparr>"
  have 1: "launch_mapdl cl fresh_kernel = (Inr (), s1)"
    by (simp add: launch_mapdl_def r s1_def fresh_kernel_def)
  from assms obtain r' where r': "command cl (Cmd ''__str__'' [] []) r = (Inr (), r')"
    unfolding dependable_def by blast
  define s2 where "s2 = snd (call cl (Cmd ''__str__'' [] []) s1)"
  have 2: "fst (call cl (Cmd ''__str__'' [] []) s1) = Inr ()" "mapdl s2 \<noteq> None"
    by (simp_all add: s2_def call_def remote_call_def s1_def r')
  define s3 where "s3 = snd (convergence_study cl s2)"
  from convergence_study_returns [OF assms 2(2)] obtain u where
    3: "fst (convergence_study cl s2) = Inr u" "ready s3"
    by (auto simp: returns_def s3_def)
  from 3(1) have "fst (sweep cl esizes (s2\<lparr>rad1 := Some 175, num_dof := [], max_stress := []\<rparr>)) = Inr u"
    by (simp add: convergence_study_eq)
  from sweep_collects [OF this] have "length (num_dof s3) = 20" "length (max_stress s3) = 20"
    by (simp_all add: s3_def convergence_study_eq length_esizes)
  then have "num_dof s3 \<noteq> []" "max_stress s3 \<noteq> []" by auto
  then have 4: "plot_convergence s3 = (Inr (), s3)"
    by (simp add: plot_convergence_def)
  have "completes ?tail"
    by (intro completes_and_then completes_run completes_call assms)
  with 3(2) obtain v where 5: "fst (?tail s3) = Inr v"
    by (auto simp: completes_def)
  have "pipe_notebook cl fresh_kernel = ?tail s3"
    unfolding pipe_notebook_def
    using 1 2(1) 3(1) 4
    by (simp add: and_then_Inr s2_def [symmetric] s3_def [symmetric])
  with 5 show ?thesis
    by (simp add: returns_def)
qed

lemma steady_plate_notebook_returns:
  "returns (plate_notebook steady_client 5 2.5 0.1 0.5 3 200000000000 0.27 1000) fresh_kernel"
  by (simp add: returns_def plate_notebook_def plate_geometry_def launch_mapdl_def run_def
      and_then_def call_def remote_call_def ret_def steady_client_def fresh_kernel_def upto_1_3)

subsection \<open>The first calls of \<open>pipe_plane_strain\<close>\<close>

lemma issues_pipe_after:
  "issues g g
     (and_then (run cl cs) (\<lambda>_.
      and_then read_rad1 (\<lambda>rad1_value.
      and_then (run cl (pipe_solve_commands rad1_value press)) (\<lambda>_.
      and_then (nodal_eqv_stress cl) (\<lambda>stress.
      and_then (np_max stress) (\<lambda>max_eqv_stress.
      and_then (nnum_all cl) (\<lambda>all_dof.
      ret (2 * int (length all_dof), max_eqv_stress))))))))
     (map Sent cs @
      (map Sent (pipe_solve_commands (case g of Some w \<Rightarrow> w | None \<Rightarrow> 0) press) @
        [Sent (Cmd ''post_processing.nodal_eqv_stress'' [] [])] @ [] @
        [Sent (Cmd ''mesh.nnum_all'' [] [])] @ []))"
proof (rule issues_and_then [OF issues_run], rule issues_read_rad1_then)
  fix w assume "g = Some w"
  then have w: "(case g of Some w \<Rightarrow> w | None \<Rightarrow> 0) = w" by simp
  show "issues g g
     (and_then (run cl (pipe_solve_commands w press)) (\<lambda>_.
      and_then (nodal_eqv_stress cl) (\<lambda>stress.
      and_then (np_max stress) (\<lambda>max_eqv_stress.
      and_then (nnum_all cl) (\<lambda>all_dof.
      ret (2 * int (length all_dof), max_eqv_stress))))))
     (map Sent (pipe_solve_commands (case g of Some w \<Rightarrow> w | None \<Rightarrow> 0) press) @
        [Sent (Cmd ''post_processing.nodal_eqv_stress'' [] [])] @ [] @
        [Sent (Cmd ''mesh.nnum_all'' [] [])] @ [])"
    unfolding w
    by (intro issues_seq issues_run issues_nodal_eqv_stress issues_np_max issues_nnum_all issues_ret)
qed

lemma pipe_first_call:
  fixes cl :: "'s client"
  assumes "mapdl s = Some r"
  shows "issued (pipe_plane_strain cl e nu inn_radius out_radius press AESIZE) s \<noteq> [] \<and>
         hd (issued (pipe_plane_strain cl e nu inn_radius out_radius press AESIZE) s) =
           Sent (Cmd ''clear'' [] [])"
proof -
  let ?p = "pipe_plane_strain cl e nu inn_radius out_radius press AESIZE"
  let ?c = "Cmd ''clear'' [] []"
  let ?rest = "tl (pipe_setup_commands e nu inn_radius out_radius AESIZE)"
  let ?q = "and_then (run cl ?rest) (\<lambda>_.
      and_then read_rad1 (\<lambda>rad1_value.
      and_then (run cl (pipe_solve_commands rad1_value press)) (\<lambda>_.
      and_then (nodal_eqv_stress cl) (\<lambda>stress.
      and_then (np_max stress) (\<lambda>max_eqv_stress.
      and_then (nnum_all cl) (\<lambda>all_dof.
      ret (2 * int (length all_dof), max_eqv_stress)))))))"
  have cons: "pipe_setup_commands e nu inn_radius out_radius AESIZE = ?c # ?rest"
    by (simp add: pipe_setup_commands_def)
  have p: "?p = and_then (call cl ?c) (\<lambda>_. ?q)"
    unfolding pipe_plane_strain_unfold
    by (subst cons) (simp add: run_def and_then_assoc)
  obtain res r' where cmd: "command cl ?c r = (res, r')"
    by (cases "command cl ?c r")
  show ?thesis
  proof (cases res)
    case (Inl x)
    with cmd assms have "?p s = (Inl x, s\<lparr>trace := trace s @ [(Sent ?c, Raised x)], mapdl := Some r'\<rparr>)"
      by (simp add: p and_then_def call_def remote_call_def)
    then show ?thesis
      by (simp add: issued_def)
  next
    case (Inr u)
    let ?s1 = "s\<lparr>trace := trace s @ [(Sent ?c, Returned NoValue)], mapdl := Some r'\<rparr>"
    from Inr cmd assms have run: "?p s = ?q ?s1"
      by (simp add: p and_then_def call_def remote_call_def)
    from issuesD [OF issues_pipe_after [of "rad1 ?s1" cl ?rest press] refl]
    obtain new where "trace (snd (?q ?s1)) = trace ?s1 @ new"
      by blast
    with run show ?thesis
      by (simp add: issued_def)
  qed
qed

lemma pipe_first_two:
  assumes "returns (pipe_plane_strain cl e nu inn_radius out_radius press AESIZE) s"
  shows "take 2 (issued (pipe_plane_strain cl e nu inn_radius out_radius press AESIZE) s) =
          [Sent (Cmd ''clear'' [] []), Sent (Cmd ''prep7'' [] [])]"
proof -
  from pipe_issued_returns [OF assms] obtain r where
    "issued (pipe_plane_strain cl e nu inn_radius out_radius press AESIZE) s =
       map Sent (pipe_commands r e nu inn_radius out_radius press AESIZE)"
    by blast
  then show ?thesis
    by (simp add: pipe_commands_def pipe_setup_commands_def)
qed

section \<open>The claims\<close>

subsection \<open>The command sequence of \<open>pipe_plane_strain\<close>\<close>

text \<open>
  Claim C3. Whatever the arguments, the client and the state in which it starts, a call
  of \<open>pipe_plane_strain\<close> that returns has made exactly the calls \<open>clear\<close>, \<open>prep7\<close>,
  \<open>et\<close>, \<open>pcirc\<close>, \<open>cm\<close>, \<open>mp\<close>, \<open>mp\<close>, \<open>aesize\<close>, \<open>mshape\<close>, \<open>mshkey\<close>, \<open>cmsel\<close>,
  \<open>amesh\<close>, \<open>nsel\<close>, \<open>cm\<close>, \<open>nsel\<close>, \<open>cm\<close>, \<open>allsel\<close>, \<open>lsel\<close>, \<open>cm\<close>, \<open>allsel\<close>,
  \<open>slashsolu\<close>, \<open>antype\<close>, \<open>d\<close>, \<open>d\<close>, \<open>csys\<close>, \<open>sfl\<close>, \<open>allsel\<close>, \<open>solve\<close>, \<open>finish\<close>,
  \<open>post1\<close>, \<open>set\<close> and the two result queries, in this order: only the arguments of the
  calls depend on the inputs. A call that ends with an exception has made an initial
  segment of this sequence, so that no command is skipped, repeated or reordered in any
  run. (The call only adds to the trace: what was sent before it stays as it was.)
\<close>

theorem pipe_plane_strain_fixed_sequence:
  "prefix (trace s) (trace (snd (pipe_plane_strain cl e nu inn_radius out_radius press AESIZE s))) \<and>
   prefix (map event_name (issued (pipe_plane_strain cl e nu inn_radius out_radius press AESIZE) s))
          pipe_command_names \<and>
   (returns (pipe_plane_strain cl e nu inn_radius out_radius press AESIZE) s \<longrightarrow>
      map event_name (issued (pipe_plane_strain cl e nu inn_radius out_radius press AESIZE) s) =
      pipe_command_names)"
proof -
  let ?p = "pipe_plane_strain cl e nu inn_radius out_radius press AESIZE"
  define v where "v = (case rad1 s of Some w \<Rightarrow> w | None \<Rightarrow> 0)"
  have "\<And>w. rad1 s = Some w \<Longrightarrow> w = v"
    by (simp add: v_def)
  from pipe_issued [of s v cl e nu inn_radius out_radius press AESIZE, OF this]
  obtain cmds where cmds: "issued ?p s = map Sent cmds"
    "prefix cmds (pipe_commands v e nu inn_radius out_radius press AESIZE)"
    "returns ?p s \<longrightarrow> cmds = pipe_commands v e nu inn_radius out_radius press AESIZE"
    by blast
  from map_mono_prefix [OF cmds(2), of cmd_name]
  have "prefix (map cmd_name cmds) pipe_command_names"
    by (simp add: pipe_command_names)
  moreover have "map cmd_name cmds = pipe_command_names" if "returns ?p s"
    using that cmds(3) by (simp add: pipe_command_names)
  moreover have "prefix (trace s) (trace (snd (?p s)))"
    using pipe_trace [of s v cl e nu inn_radius out_radius press AESIZE] by (auto simp: v_def)
  ultimately show ?thesis
    by (simp add: cmds(1))
qed

theorem pipe_plane_strain_fixed_sequence_witness:
  "returns (pipe_plane_strain steady_client 200000 0.3 175 200 100 5) session_state \<and>
   map event_name (issued (pipe_plane_strain steady_client 200000 0.3 175 200 100 5) session_state) =
     pipe_command_names"
proof -
  have "returns (pipe_plane_strain steady_client 200000 0.3 175 200 100 5) session_state"
    by (rule steady_pipe_returns [of _ 0 175]) (simp_all add: session_state_def)
  with pipe_plane_strain_fixed_sequence [of session_state steady_client 200000 "0.3" 175 200 100 5]
  show ?thesis by simp
qed

text \<open>
  Claim C8. Every call of \<open>pipe_plane_strain\<close> starts with \<open>clear\<close> and then \<open>prep7\<close>:
  a call made while a session is bound sends \<open>clear\<close> first, whatever happens next; a
  call that returns has sent \<open>clear\<close> and then \<open>prep7\<close> before anything else; and in
  every run the first two events are these two, as far as the run gets.
  The commands that a call sends do not depend on what came before: for
  two calls with equal arguments, started in any two states in which \<open>rad1\<close> is bound
  alike (whatever their traces, remote states and result lists, and whatever the clients
  answer), the two command sequences are equal when both calls return, and otherwise one
  is an initial segment of the other.
\<close>

theorem pipe_plane_strain_history_independent:
  "take 2 (issued (pipe_plane_strain cl e nu inn_radius out_radius press AESIZE) s) =
     take (length (issued (pipe_plane_strain cl e nu inn_radius out_radius press AESIZE) s))
       [Sent (Cmd ''clear'' [] []), Sent (Cmd ''prep7'' [] [])] \<and>
   (mapdl s \<noteq> None \<longrightarrow>
      issued (pipe_plane_strain cl e nu inn_radius out_radius press AESIZE) s \<noteq> [] \<and>
      hd (issued (pipe_plane_strain cl e nu inn_radius out_radius press AESIZE) s) =
        Sent (Cmd ''clear'' [] [])) \<and>
   (returns (pipe_plane_strain cl e nu inn_radius out_radius press AESIZE) s \<longrightarrow>
      take 2 (issued (pipe_plane_strain cl e nu inn_radius out_radius press AESIZE) s) =
        [Sent (Cmd ''clear'' [] []), Sent (Cmd ''prep7'' [] [])]) \<and>
   (rad1 s = rad1 s' \<longrightarrow>
      (prefix (issued (pipe_plane_strain cl e nu inn_radius out_radius press AESIZE) s)
              (issued (pipe_plane_strain cl' e nu inn_radius out_radius press AESIZE) s') \<or>
       prefix (issued (pipe_plane_strain cl' e nu inn_radius out_radius press AESIZE) s')
              (issued (pipe_plane_strain cl e nu inn_radius out_radius press AESIZE) s)) \<and>
      (returns (pipe_plane_strain cl e nu inn_radius out_radius press AESIZE) s \<and>
       returns (pipe_plane_strain cl' e nu inn_radius out_radius press AESIZE) s' \<longrightarrow>
         issued (pipe_plane_strain cl e nu inn_radius out_radius press AESIZE) s =
         issued (pipe_plane_strain cl' e nu inn_radius out_radius press AESIZE) s'))"
proof -
  let ?p = "pipe_plane_strain cl e nu inn_radius out_radius press AESIZE"
  let ?p' = "pipe_plane_strain cl' e nu inn_radius out_radius press AESIZE"
  define v where "v = (case rad1 s of Some w \<Rightarrow> w | None \<Rightarrow> 0)"
  let ?cs = "pipe_commands v e nu inn_radius out_radius press AESIZE"
  have "\<And>w. rad1 s = Some w \<Longrightarrow> w = v"
    by (simp add: v_def)
  from pipe_issued [of s v cl e nu inn_radius out_radius press AESIZE, OF this]
  obtain cmds where cmds: "issued ?p s = map Sent cmds" "prefix cmds ?cs"
    "returns ?p s \<longrightarrow> cmds = ?cs"
    by blast
  have "take 2 cmds = take (length cmds) [Cmd ''clear'' [] [], Cmd ''prep7'' [] []]"
    using cmds(2) unfolding pipe_commands_def pipe_setup_commands_def
    by (simp add: take_two_prefix)
  then have "take 2 (map Sent cmds) =
      take (length cmds) (map Sent [Cmd ''clear'' [] [], Cmd ''prep7'' [] []])"
    by (simp only: take_map)
  then have first: "take 2 (issued ?p s) = take (length (issued ?p s))
       [Sent (Cmd ''clear'' [] []), Sent (Cmd ''prep7'' [] [])]"
    by (simp add: cmds(1))
  have second: "(prefix (issued ?p s) (issued ?p' s') \<or> prefix (issued ?p' s') (issued ?p s)) \<and>
      (returns ?p s \<and> returns ?p' s' \<longrightarrow> issued ?p s = issued ?p' s')" if eq: "rad1 s = rad1 s'"
  proof -
    have "\<And>w. rad1 s' = Some w \<Longrightarrow> w = v"
      by (simp add: v_def eq)
    from pipe_issued [of s' v cl' e nu inn_radius out_radius press AESIZE, OF this]
    obtain cmds' where cmds': "issued ?p' s' = map Sent cmds'" "prefix cmds' ?cs"
      "returns ?p' s' \<longrightarrow> cmds' = ?cs"
      by blast
    from prefix_same_cases [OF cmds(2) cmds'(2)]
    have "prefix (map Sent cmds) (map Sent cmds') \<or> prefix (map Sent cmds') (map Sent cmds)"
      by (auto intro: map_mono_prefix)
    with cmds cmds' show ?thesis by auto
  qed
  have bound: "issued ?p s \<noteq> [] \<and> hd (issued ?p s) = Sent (Cmd ''clear'' [] [])"
    if "mapdl s \<noteq> None"
  proof -
    from that obtain r where "mapdl s = Some r" by auto
    then show ?thesis by (rule pipe_first_call)
  qed
  have two: "take 2 (issued ?p s) = [Sent (Cmd ''clear'' [] []), Sent (Cmd ''prep7'' [] [])]"
    if "returns ?p s"
    using that by (rule pipe_first_two)
  from first bound two second show ?thesis by blast
qed

theorem pipe_plane_strain_history_independent_witness:
  "rad1 session_state =
     rad1 (session_state\<lparr>trace := [(Launch, Returned NoValue)], mapdl := Some 40, num_dof := [8]\<rparr>) \<and>
   returns (pipe_plane_strain steady_client 200000 0.3 175 200 100 5) session_state \<and>
   returns (pipe_plane_strain steady_client 200000 0.3 175 200 100 5)
     (session_state\<lparr>trace := [(Launch, Returned NoValue)], mapdl := Some 40, num_dof := [8]\<rparr>) \<and>
   mapdl session_state \<noteq> None \<and>
   hd (issued (pipe_plane_strain steady_client 200000 0.3 175 200 100 5) session_state) =
     Sent (Cmd ''clear'' [] []) \<and>
   take 2 (issued (pipe_plane_strain steady_client 200000 0.3 175 200 100 5) session_state) =
     [Sent (Cmd ''clear'' [] []), Sent (Cmd ''prep7'' [] [])] \<and>
   issued (pipe_plane_strain steady_client 200000 0.3 175 200 100 5) session_state =
   issued (pipe_plane_strain steady_client 200000 0.3 175 200 100 5)
     (session_state\<lparr>trace := [(Launch, Returned NoValue)], mapdl := Some 40, num_dof := [8]\<rparr>)"
proof -
  let ?later = "session_state\<lparr>trace := [(Launch, Returned NoValue)], mapdl := Some 40, num_dof := [8]\<rparr>"
  have 1: "returns (pipe_plane_strain steady_client 200000 0.3 175 200 100 5) session_state"
    by (rule steady_pipe_returns [of _ 0 175]) (simp_all add: session_state_def)
  have 2: "returns (pipe_plane_strain steady_client 200000 0.3 175 200 100 5) ?later"
    by (rule steady_pipe_returns [of _ 40 175]) (simp_all add: session_state_def)
  have 3: "mapdl session_state \<noteq> None"
    by (simp add: session_state_def)
  have 4: "rad1 session_state = rad1 ?later"
    by simp
  from 1 2 3 4 pipe_plane_strain_history_independent
    [of steady_client 200000 "0.3" 175 200 100 5 session_state ?later steady_client]
  show ?thesis by blast
qed


text \<open>
  Claim C4. The line selection of \<open>pipe_plane_strain\<close> takes its radius from the
  module-level \<open>rad1\<close>, not from the parameter \<open>inn_radius\<close>. For calls that return: the
  18th command is \<open>lsel("S", "RADIUS", vmin=rad1)\<close> with the value that \<open>rad1\<close> has in the
  state of the call; it is the same command for another \<open>inn_radius\<close>; and two calls with
  the same arguments in states that bind \<open>rad1\<close> differently send different command
  sequences.
\<close>

theorem lsel_reads_global_rad1:
  "returns (pipe_plane_strain cl e nu inn_radius out_radius press AESIZE) s \<and>
   returns (pipe_plane_strain cl e nu inn_radius out_radius press AESIZE) s' \<and>
   returns (pipe_plane_strain cl e nu inn_radius' out_radius press AESIZE) s \<longrightarrow>
     (\<exists>r r'. rad1 s = Some r \<and> rad1 s' = Some r' \<and>
        issued (pipe_plane_strain cl e nu inn_radius out_radius press AESIZE) s ! 17 =
          Sent (Cmd ''lsel'' [Str ''S'', Str ''RADIUS''] [(''vmin'', Num r)]) \<and>
        issued (pipe_plane_strain cl e nu inn_radius' out_radius press AESIZE) s ! 17 =
          Sent (Cmd ''lsel'' [Str ''S'', Str ''RADIUS''] [(''vmin'', Num r)]) \<and>
        issued (pipe_plane_strain cl e nu inn_radius out_radius press AESIZE) s' ! 17 =
          Sent (Cmd ''lsel'' [Str ''S'', Str ''RADIUS''] [(''vmin'', Num r')]) \<and>
        (r \<noteq> r' \<longrightarrow>
           issued (pipe_plane_strain cl e nu inn_radius out_radius press AESIZE) s \<noteq>
           issued (pipe_plane_strain cl e nu inn_radius out_radius press AESIZE) s'))"
proof (intro impI, elim conjE)
  let ?p = "pipe_plane_strain cl e nu inn_radius out_radius press AESIZE"
  let ?q = "pipe_plane_strain cl e nu inn_radius' out_radius press AESIZE"
  assume "returns ?p s" and "returns ?p s'" and "returns ?q s"
  from pipe_issued_returns [OF \<open>returns ?p s\<close>] obtain r where r: "rad1 s = Some r"
    "issued ?p s = map Sent (pipe_commands r e nu inn_radius out_radius press AESIZE)"
    by blast
  from pipe_issued_returns [OF \<open>returns ?p s'\<close>] obtain r' where r': "rad1 s' = Some r'"
    "issued ?p s' = map Sent (pipe_commands r' e nu inn_radius out_radius press AESIZE)"
    by blast
  from pipe_issued_returns [OF \<open>returns ?q s\<close>] r(1)
  have q: "issued ?q s = map Sent (pipe_commands r e nu inn_radius' out_radius press AESIZE)"
    by simp
  have 1: "issued ?p s ! 17 = Sent (Cmd ''lsel'' [Str ''S'', Str ''RADIUS''] [(''vmin'', Num r)])"
    unfolding r(2) by (rule pipe_commands_lsel)
  have 2: "issued ?q s ! 17 = Sent (Cmd ''lsel'' [Str ''S'', Str ''RADIUS''] [(''vmin'', Num r)])"
    unfolding q by (rule pipe_commands_lsel)
  have 3: "issued ?p s' ! 17 = Sent (Cmd ''lsel'' [Str ''S'', Str ''RADIUS''] [(''vmin'', Num r')])"
    unfolding r'(2) by (rule pipe_commands_lsel)
  have "issued ?p s \<noteq> issued ?p s'" if "r \<noteq> r'"
  proof
    assume "issued ?p s = issued ?p s'"
    with 1 3 have "Num r = Num r'" by simp
    with that show False by simp
  qed
  with r(1) r'(1) 1 2 3
  show "\<exists>r r'. rad1 s = Some r \<and> rad1 s' = Some r' \<and>
        issued ?p s ! 17 = Sent (Cmd ''lsel'' [Str ''S'', Str ''RADIUS''] [(''vmin'', Num r)]) \<and>
        issued ?q s ! 17 = Sent (Cmd ''lsel'' [Str ''S'', Str ''RADIUS''] [(''vmin'', Num r)]) \<and>
        issued ?p s' ! 17 = Sent (Cmd ''lsel'' [Str ''S'', Str ''RADIUS''] [(''vmin'', Num r')]) \<and>
        (r \<noteq> r' \<longrightarrow> issued ?p s \<noteq> issued ?p s')"
    by blast
qed

theorem lsel_reads_global_rad1_witness:
  "returns (pipe_plane_strain steady_client 200000 0.3 175 200 100 5) session_state \<and>
   returns (pipe_plane_strain steady_client 200000 0.3 175 200 100 5) (session_state\<lparr>rad1 := Some 150\<rparr>) \<and>
   returns (pipe_plane_strain steady_client 200000 0.3 170 200 100 5) session_state \<and>
   issued (pipe_plane_strain steady_client 200000 0.3 175 200 100 5) session_state ! 17 =
   issued (pipe_plane_strain steady_client 200000 0.3 170 200 100 5) session_state ! 17 \<and>
   issued (pipe_plane_strain steady_client 200000 0.3 175 200 100 5) session_state \<noteq>
   issued (pipe_plane_strain steady_client 200000 0.3 175 200 100 5) (session_state\<lparr>rad1 := Some 150\<rparr>)"
proof -
  have 1: "returns (pipe_plane_strain steady_client 200000 0.3 175 200 100 5) session_state"
    by (rule steady_pipe_returns [of _ 0 175]) (simp_all add: session_state_def)
  have 2: "returns (pipe_plane_strain steady_client 200000 0.3 175 200 100 5) (session_state\<lparr>rad1 := Some 150\<rparr>)"
    by (rule steady_pipe_returns [of _ 0 150]) (simp_all add: session_state_def)
  have 3: "returns (pipe_plane_strain steady_client 200000 0.3 170 200 100 5) session_state"
    by (rule steady_pipe_returns [of _ 0 175]) (simp_all add: session_state_def)
  from 1 2 3 lsel_reads_global_rad1
    [of steady_client 200000 "0.3" 175 200 100 5 session_state "session_state\<lparr>rad1 := Some 150\<rparr>" 170]
  show ?thesis by (auto simp: session_state_def)
qed


subsection \<open>The result of \<open>pipe_plane_strain\<close>\<close>




subsection \<open>Exceptions\<close>

text \<open>
  Claim C6. Neither \<open>pipe_plane_strain\<close> nor the sweep cell handles an exception: in any
  run of either, from any state and with any client, a call to the client library that
  raised is the last call of the run (nothing is sent after it), and the run ends with
  that exception.
\<close>

theorem exceptions_propagate:
  "propagates (pipe_plane_strain cl e nu inn_radius out_radius press AESIZE) \<and>
   propagates (convergence_study cl)"
proof
  have "issues (rad1 s) (rad1 s) (pipe_plane_strain cl e nu inn_radius out_radius press AESIZE)
          (map Sent (pipe_commands (case rad1 s of Some w \<Rightarrow> w | None \<Rightarrow> 0)
             e nu inn_radius out_radius press AESIZE))" for s :: "'a state"
    by (rule issues_pipe_plane_strain) simp
  then show "propagates (pipe_plane_strain cl e nu inn_radius out_radius press AESIZE)"
    by (rule propagatesI)
  show "propagates (convergence_study cl)"
    by (rule propagatesI) (rule issues_convergence_study)
qed

theorem exceptions_propagate_witness:
  "fst (pipe_plane_strain failing_client 200000 0.3 175 200 100 5 session_state) = Inl (LibraryError ''solve'') \<and>
   length (trace (snd (pipe_plane_strain failing_client 200000 0.3 175 200 100 5 session_state))) = 28 \<and>
   fst (convergence_study failing_client session_state) = Inl (LibraryError ''solve'') \<and>
   length (trace (snd (convergence_study failing_client session_state))) = 28"
  using exceptions_propagate [of failing_client 200000 "0.3" 175 200 100 5]
    failing_pipe_run failing_study_run
  by simp



subsection \<open>The convergence sweep\<close>

text \<open>
  Claim C1. \<open>esizes = np.logspace(1.4, 0, 20)\<close> has 20 elements. A run of the sweep cell
  that returns has called \<open>pipe_plane_strain\<close> once for each of them, in order: the
  commands it has sent are the 20 blocks of commands of one call each, the \<open>i\<close>-th with
  the \<open>i\<close>-th element size. After the loop \<open>num_dof\<close> and \<open>max_stress\<close> have length 20, and
  their \<open>i\<close>-th entries are the DOF count and the peak stress that the \<open>i\<close>-th call
  returned, that is the call with the \<open>i\<close>-th element size in the state that the first
  \<open>i\<close> iterations leave behind.
\<close>

theorem convergence_sweep_collects:
  assumes "returns (convergence_study cl) s"
  shows "length esizes = 20 \<and>
     issued (convergence_study cl) s =
       concat (map (\<lambda>esize. map Sent (pipe_commands 175 200000 0.3 175 200 100 esize)) esizes) \<and>
     length (num_dof (snd (convergence_study cl s))) = 20 \<and>
     length (max_stress (snd (convergence_study cl s))) = 20 \<and>
     (\<forall>i<20.
        fst (pipe_plane_strain cl 200000 0.3 175 200 100 (esizes ! i)
               (snd (sweep cl (take i esizes) (s\<lparr>rad1 := Some 175, num_dof := [], max_stress := []\<rparr>)))) =
        Inr (num_dof (snd (convergence_study cl s)) ! i, max_stress (snd (convergence_study cl s)) ! i))"
proof -
  let ?s0 = "s\<lparr>rad1 := Some 175, num_dof := [], max_stress := []\<rparr>"
  from assms obtain u where u: "fst (sweep cl esizes ?s0) = Inr u"
    by (auto simp: returns_def convergence_study_eq)
  have "rad1 ?s0 = Some 175" by simp
  from sweep_collects [OF u this] have lists:
    "length (num_dof (snd (sweep cl esizes ?s0))) = 20"
    "length (max_stress (snd (sweep cl esizes ?s0))) = 20"
    "\<forall>i<20. fst (pipe_plane_strain cl 200000 0.3 175 200 100 (esizes ! i) (snd (sweep cl (take i esizes) ?s0))) =
          Inr (num_dof (snd (sweep cl esizes ?s0)) ! i, max_stress (snd (sweep cl esizes ?s0)) ! i)"
    by (simp_all add: length_esizes)
  from issuesD [OF issues_convergence_study [of "rad1 s" cl] refl] assms
  have "issued (convergence_study cl) s =
       concat (map (\<lambda>esize. map Sent (pipe_commands 175 200000 0.3 175 200 100 esize)) esizes)"
    by (auto simp: returns_def issued_def)
  with lists show ?thesis
    by (simp add: length_esizes convergence_study_eq)
qed

theorem convergence_sweep_collects_witness:
  "returns (convergence_study steady_client) session_state \<and>
   length (issued (convergence_study steady_client) session_state) = 660 \<and>
   num_dof (snd (convergence_study steady_client session_state)) = replicate 20 8 \<and>
   max_stress (snd (convergence_study steady_client session_state)) = replicate 20 702.42"
proof -
  let ?s' = "snd (convergence_study steady_client session_state)"
  have r: "returns (convergence_study steady_client) session_state"
    using convergence_study_returns [OF dependable_steady_client, of session_state]
    by (simp add: session_state_def)
  note c = convergence_sweep_collects [OF r]
  have v: "num_dof ?s' ! i = 8 \<and> max_stress ?s' ! i = 702.42" if "i < 20" for i
  proof -
    let ?si = "snd (sweep steady_client (take i esizes)
        (session_state\<lparr>rad1 := Some 175, num_dof := [], max_stress := []\<rparr>))"
    from c that have "fst (pipe_plane_strain steady_client 200000 0.3 175 200 100 (esizes ! i) ?si) =
        Inr (num_dof ?s' ! i, max_stress ?s' ! i)"
      by simp
    moreover have "ready ?si"
      using completes_sweep [OF dependable_steady_client, of "take i esizes"]
      by (simp add: completes_def ready_def session_state_def)
    then obtain r w where "mapdl ?si = Some r" "rad1 ?si = Some w"
      by (auto simp: ready_def)
    from steady_pipe_value [OF this] have
      "fst (pipe_plane_strain steady_client 200000 0.3 175 200 100 (esizes ! i) ?si) = Inr (8, 702.42)" .
    ultimately show ?thesis by simp
  qed
  have "num_dof ?s' = replicate 20 8"
    using c v by (intro nth_equalityI) simp_all
  moreover have "max_stress ?s' = replicate 20 702.42"
    using c v by (intro nth_equalityI) simp_all
  moreover have "length (issued (convergence_study steady_client) session_state) = 660"
    using c by (simp add: length_concat comp_def pipe_commands_def pipe_setup_commands_def
        pipe_solve_commands_def sum_list_triv)
  ultimately show ?thesis using r by simp
qed



subsection \<open>The recorded sweep\<close>

text \<open>
  Claim C5 says that the 20 peak stresses recorded in the notebook are monotonically
  non-decreasing. They are not: the third value, 725.63, is below the second, 725.72.
\<close>

theorem recorded_peak_stress_not_monotone: "\<not> sorted recorded_max_stress"
  by (simp add: recorded_max_stress_def)


text \<open>
  Claim C5, amended. The recorded output has 20 lines, with strictly increasing DOF
  counts. The recorded peak stresses rise from 702.42, their minimum, to 748.40, their
  maximum, but not monotonically: a value can be below its predecessor, by at most
  0.09 MPa; from the 9th value on they increase strictly.
\<close>

theorem recorded_peak_stress_trend:
  "length recorded_num_dof = 20 \<and> length recorded_max_stress = 20 \<and>
   sorted_wrt (<) recorded_num_dof \<and>
   Min (set recorded_max_stress) = hd recorded_max_stress \<and>
   Max (set recorded_max_stress) = last recorded_max_stress \<and>
   list_all2 (\<lambda>a b. a - 0.09 \<le> b) (butlast recorded_max_stress) (tl recorded_max_stress) \<and>
   sorted_wrt (<) (drop 8 recorded_max_stress)"
  by (simp add: recorded_max_stress_def recorded_num_dof_def)


subsection \<open>The plate notebook\<close>

text \<open>
  Claim C9. A run of the geometry cell of the plate notebook that returns has sent, after
  the launch, \<open>clear\<close>, \<open>prep7\<close> and \<open>block\<close>: one \<open>cyl4\<close> command for each \<open>i\<close> from 1
  to \<open>NUM\<close>, in this order, with centre \<open>(i*LENGTH/(NUM+1), WIDTH/2)\<close>, radius \<open>RADIUS\<close>
  and depth \<open>2*DEPTH\<close>; then one \<open>vsbv(1, 'all')\<close>; then \<open>vplot\<close>. So it has sent exactly
  \<open>NUM\<close> \<open>cyl4\<close> commands (none when \<open>NUM\<close> is negative) and exactly one \<open>vsbv\<close>. A run
  that raises has sent an initial segment of this sequence. The centres of consecutive
  holes are \<open>LENGTH/(NUM+1)\<close> apart (in exact arithmetic).
\<close>

theorem plate_holes:
  "prefix (issued (plate_geometry cl LENGTH WIDTH DEPTH RADIUS NUM) s)
     ([Launch, Sent (Cmd ''clear'' [] []), Sent (Cmd ''prep7'' [] []),
       Sent (Cmd ''block'' [Num 0, Num LENGTH, Num 0, Num WIDTH, Num 0, Num DEPTH] [])] @
      map (\<lambda>i. Sent (Cmd ''cyl4'' [Num (of_int i * LENGTH / of_int (NUM + 1)), Num (WIDTH / 2),
                                   Num RADIUS, Str '''', Str '''', Str '''', Num (2 * DEPTH)] [])) [1..NUM] @
      [Sent (Cmd ''vsbv'' [Num 1, Str ''all''] []), Sent (Cmd ''vplot'' [Str ''all''] [])]) \<and>
   (returns (plate_geometry cl LENGTH WIDTH DEPTH RADIUS NUM) s \<longrightarrow>
      issued (plate_geometry cl LENGTH WIDTH DEPTH RADIUS NUM) s =
        [Launch, Sent (Cmd ''clear'' [] []), Sent (Cmd ''prep7'' [] []),
         Sent (Cmd ''block'' [Num 0, Num LENGTH, Num 0, Num WIDTH, Num 0, Num DEPTH] [])] @
        map (\<lambda>i. Sent (Cmd ''cyl4'' [Num (of_int i * LENGTH / of_int (NUM + 1)), Num (WIDTH / 2),
                                     Num RADIUS, Str '''', Str '''', Str '''', Num (2 * DEPTH)] [])) [1..NUM] @
        [Sent (Cmd ''vsbv'' [Num 1, Str ''all''] []), Sent (Cmd ''vplot'' [Str ''all''] [])] \<and>
      int (length (filter (\<lambda>ev. event_name ev = ''cyl4'')
             (issued (plate_geometry cl LENGTH WIDTH DEPTH RADIUS NUM) s))) = max 0 NUM \<and>
      length (filter (\<lambda>ev. event_name ev = ''vsbv'')
             (issued (plate_geometry cl LENGTH WIDTH DEPTH RADIUS NUM) s)) = 1) \<and>
   (of_int (i + 1) * LENGTH / of_int (NUM + 1) - of_int i * LENGTH / of_int (NUM + 1) =
      LENGTH / of_int (NUM + 1))"
proof -
  let ?p = "plate_geometry cl LENGTH WIDTH DEPTH RADIUS NUM"
  let ?es = "[Launch, Sent (Cmd ''clear'' [] []), Sent (Cmd ''prep7'' [] []),
       Sent (Cmd ''block'' [Num 0, Num LENGTH, Num 0, Num WIDTH, Num 0, Num DEPTH] [])] @
      map (\<lambda>i. Sent (Cmd ''cyl4'' [Num (of_int i * LENGTH / of_int (NUM + 1)), Num (WIDTH / 2),
                                   Num RADIUS, Str '''', Str '''', Str '''', Num (2 * DEPTH)] [])) [1..NUM] @
      [Sent (Cmd ''vsbv'' [Num 1, Str ''all''] []), Sent (Cmd ''vplot'' [Str ''all''] [])]"
  have "issues (rad1 s) (rad1 s) ?p ?es"
    using issues_plate_geometry [of "rad1 s" cl LENGTH WIDTH DEPTH RADIUS NUM]
    unfolding plate_geometry_events .
  from issuesD [OF this refl] have pre: "prefix (issued ?p s) ?es"
    and full: "returns ?p s \<longrightarrow> issued ?p s = ?es"
    by (auto simp: issued_def returns_def)
  have cyl: "int (length (filter (\<lambda>ev. event_name ev = ''cyl4'') ?es)) = max 0 NUM"
    by (simp add: comp_def)
  have vsbv: "length (filter (\<lambda>ev. event_name ev = ''vsbv'') ?es) = 1"
    by (simp add: comp_def)
  have "of_int (i + 1) * LENGTH / of_int (NUM + 1) - of_int i * LENGTH / of_int (NUM + 1) =
      LENGTH / of_int (NUM + 1)"
    by (simp add: diff_divide_distrib [symmetric] algebra_simps)
  with pre full cyl vsbv show ?thesis
    by (metis (no_types, lifting))
qed

theorem plate_holes_witness:
  "returns (plate_geometry steady_client 5 2.5 0.1 0.5 3) fresh_kernel \<and>
   issued (plate_geometry steady_client 5 2.5 0.1 0.5 3) fresh_kernel =
     [Launch, Sent (Cmd ''clear'' [] []), Sent (Cmd ''prep7'' [] []),
      Sent (Cmd ''block'' [Num 0, Num 5, Num 0, Num 2.5, Num 0, Num 0.1] []),
      Sent (Cmd ''cyl4'' [Num 1.25, Num 1.25, Num 0.5, Str '''', Str '''', Str '''', Num 0.2] []),
      Sent (Cmd ''cyl4'' [Num 2.5, Num 1.25, Num 0.5, Str '''', Str '''', Str '''', Num 0.2] []),
      Sent (Cmd ''cyl4'' [Num 3.75, Num 1.25, Num 0.5, Str '''', Str '''', Str '''', Num 0.2] []),
      Sent (Cmd ''vsbv'' [Num 1, Str ''all''] []), Sent (Cmd ''vplot'' [Str ''all''] [])] \<and>
   length (filter (\<lambda>ev. event_name ev = ''cyl4'')
     (issued (plate_geometry steady_client 5 2.5 0.1 0.5 3) fresh_kernel)) = 3"
  using plate_holes [of steady_client 5 "2.5" "0.1" "0.5" 3 fresh_kernel 1]
    steady_plate_geometry_returns
  by (simp add: upto_1_3)


subsection \<open>The session\<close>

text \<open>
  Claim C7. In a run of either notebook in a fresh kernel, \<open>launch_mapdl()\<close> is the first
  call and the only launch, so that no command is sent before it; \<open>mapdl.exit()\<close> is sent
  at most once and nothing is sent after it; and a run that completes has sent it, as
  its last command. (A run that a raising cell stops never reaches \<open>exit\<close>.)
\<close>

theorem session_lifecycle:
  "launch_first_exit_last (pipe_notebook cl) \<and>
   launch_first_exit_last (plate_notebook cl LENGTH WIDTH DEPTH RADIUS NUM E NU PRESSURE)"
proof
  show "launch_first_exit_last (pipe_notebook cl)"
    unfolding pipe_notebook_def
    by (rule launch_first_exit_lastI [where g' = "\<lambda>_. Some 175"], rule issues_pipe_notebook_rest)
       (simp add: image_UN pipe_commands_names_set exit_not_pipe_command)
  show "launch_first_exit_last (plate_notebook cl LENGTH WIDTH DEPTH RADIUS NUM E NU PRESSURE)"
    unfolding plate_notebook_eq
    by (rule launch_first_exit_lastI [where g' = "\<lambda>g. g"], rule issues_plate_notebook_rest)
       (auto simp: image_iff)
qed

theorem session_lifecycle_witness:
  "returns (pipe_notebook steady_client) fresh_kernel \<and>
   returns (plate_notebook steady_client 5 2.5 0.1 0.5 3 200000000000 0.27 1000) fresh_kernel \<and>
   (\<exists>cs. issued (pipe_notebook steady_client) fresh_kernel = Launch # map Sent cs \<and>
         cs \<noteq> [] \<and> last cs = Cmd ''exit'' [] []) \<and>
   (\<exists>cs. issued (plate_notebook steady_client 5 2.5 0.1 0.5 3 200000000000 0.27 1000) fresh_kernel =
           Launch # map Sent cs \<and> cs \<noteq> [] \<and> last cs = Cmd ''exit'' [] [])"
proof -
  note r1 = pipe_notebook_returns [OF dependable_steady_client]
  note r2 = steady_plate_notebook_returns
  from session_lifecycle [of steady_client 5 "2.5" "0.1" "0.5" 3 200000000000 "0.27" 1000] r1 r2
  show ?thesis
    unfolding launch_first_exit_last_def by blast
qed


end
